theory Spec2Isabelle
  imports Complex_Main
begin

text \<open>
  A shallow embedding of the gesture classification and lock core of
  \<^verbatim>\<open>src/app/translator/page.tsx\<close> (the \<^verbatim>\<open>HandTracker\<close> component with calibration and
  two-hand support). JavaScript numbers are modelled as follows: landmark coordinates,
  hand sizes and \<^verbatim>\<open>performance.now()\<close> readings are real numbers (the idealisation of
  IEEE doubles without rounding, infinities or NaN); \<^verbatim>\<open>Date.now()\<close> readings are
  integers; counters are natural numbers. Every mutable \<^verbatim>\<open>useRef\<close> cell the modelled
  code touches is a field of an explicit state record that each step takes and returns.
\<close>

section \<open>Gesture identifiers and the phrase table\<close>

text \<open>
  The closed enumeration \<^verbatim>\<open>GestureId\<close> and the static table \<^verbatim>\<open>GESTURE_PHRASE\<close>. The
  constructors are the source's string literals, capitalised.
\<close>

datatype GestureId =
  Hello | Yes | Good_okay | No | Wait | Help | Assistance | Thank_you
  | Please | Goodbye | Water | Restroom | Stop

fun GESTURE_PHRASE :: "GestureId \<Rightarrow> string" where
  "GESTURE_PHRASE Hello = ''Hello''"
| "GESTURE_PHRASE Yes = ''Yes''"
| "GESTURE_PHRASE Good_okay = ''Good, okay''"
| "GESTURE_PHRASE No = ''No''"
| "GESTURE_PHRASE Wait = ''Wait''"
| "GESTURE_PHRASE Help = ''Help''"
| "GESTURE_PHRASE Assistance = ''I need assistance''"
| "GESTURE_PHRASE Thank_you = ''Thank you''"
| "GESTURE_PHRASE Please = ''Please''"
| "GESTURE_PHRASE Goodbye = ''Goodbye''"
| "GESTURE_PHRASE Water = ''I need water''"
| "GESTURE_PHRASE Restroom = ''I need the restroom''"
| "GESTURE_PHRASE Stop = ''Please stop''"

section \<open>Landmarks and geometric primitives\<close>

text \<open>
  \<^verbatim>\<open>type Landmark = { x: number; y: number; z?: number }\<close> and
  \<^verbatim>\<open>type Landmarks = Landmark[]\<close>. An array read \<^verbatim>\<open>landmarks[i]\<close> past the end yields
  \<^verbatim>\<open>undefined\<close>, and the code tests every point it reads with \<^verbatim>\<open>!p\<close>; so a hand is a
  list of optional points and \<open>lm_at\<close> is the array read, \<open>None\<close> for an index past the
  end as well as for an absent entry.
\<close>

record Landmark =
  lm_x :: real
  lm_y :: real
  lm_z :: "real option"

type_synonym Landmarks = "Landmark option list"

definition lm_at :: "Landmarks \<Rightarrow> nat \<Rightarrow> Landmark option" where
  "lm_at landmarks i = (if i < length landmarks then landmarks ! i else None)"

definition dist2 :: "Landmark \<Rightarrow> Landmark \<Rightarrow> real" where
  "dist2 a b = (let dx = lm_x a - lm_x b; dy = lm_y a - lm_y b in dx * dx + dy * dy)"

text \<open>The source's \<^verbatim>\<open>dist\<close>; renamed because \<open>dist\<close> is the metric of HOL.\<close>

definition dist_lm :: "Landmark \<Rightarrow> Landmark \<Rightarrow> real" where
  "dist_lm a b = sqrt (dist2 a b)"

definition getHandSize :: "Landmarks \<Rightarrow> real" where
  "getHandSize landmarks =
     (case lm_at landmarks 0 of
        None \<Rightarrow> 0
      | Some wrist \<Rightarrow>
          (case lm_at landmarks 9 of
             None \<Rightarrow> 0
           | Some middleMcp \<Rightarrow> dist_lm wrist middleMcp))"

text \<open>
  The four points a finger predicate reads, or \<open>None\<close> when the guard
  \<^verbatim>\<open>if (!wrist || !m || !p || !t) return false\<close> fires.
\<close>

definition fingerPoints ::
  "Landmarks \<Rightarrow> nat \<Rightarrow> nat \<Rightarrow> nat \<Rightarrow> (Landmark \<times> Landmark \<times> Landmark \<times> Landmark) option" where
  "fingerPoints landmarks mcp pip tip =
     (case lm_at landmarks 0 of
        None \<Rightarrow> None
      | Some wrist \<Rightarrow>
          (case lm_at landmarks mcp of
             None \<Rightarrow> None
           | Some m \<Rightarrow>
               (case lm_at landmarks pip of
                  None \<Rightarrow> None
                | Some p \<Rightarrow>
                    (case lm_at landmarks tip of
                       None \<Rightarrow> None
                     | Some t \<Rightarrow> Some (wrist, m, p, t)))))"

definition isFingerExtended :: "Landmarks \<Rightarrow> nat \<Rightarrow> nat \<Rightarrow> nat \<Rightarrow> real \<Rightarrow> bool" where
  "isFingerExtended landmarks mcp pip tip handSize =
     (case fingerPoints landmarks mcp pip tip of
        None \<Rightarrow> False
      | Some (wrist, m, p, t) \<Rightarrow>
          (let hs2 = (max handSize 0.0001)\<^sup>2 in
           dist2 t wrist > dist2 p wrist + 0.16 * hs2
           \<and> dist2 p wrist > dist2 m wrist + 0.08 * hs2))"

definition isFingerCurled :: "Landmarks \<Rightarrow> nat \<Rightarrow> nat \<Rightarrow> nat \<Rightarrow> real \<Rightarrow> bool" where
  "isFingerCurled landmarks mcp pip tip handSize =
     (case fingerPoints landmarks mcp pip tip of
        None \<Rightarrow> False
      | Some (wrist, m, p, t) \<Rightarrow>
          (let hs2 = (max handSize 0.0001)\<^sup>2 in
           dist2 t wrist + 0.128 * hs2 < dist2 p wrist))"

definition isThumbExtended :: "Landmarks \<Rightarrow> real \<Rightarrow> bool" where
  "isThumbExtended landmarks handSize =
     (case fingerPoints landmarks 2 3 4 of
        None \<Rightarrow> False
      | Some (wrist, mcp, ip, tip) \<Rightarrow>
          (let hs2 = (max handSize 0.0001)\<^sup>2 in
           dist2 tip wrist > dist2 ip wrist + 0.128 * hs2
           \<and> dist2 ip wrist > dist2 mcp wrist + 0.064 * hs2))"

section \<open>The single-hand classifier \<^verbatim>\<open>classifyGesture\<close>\<close>

text \<open>
  The scale reference \<^verbatim>\<open>hs = Math.max(handSize, baselineHandSize || 0, 0.0001)\<close>; the
  second argument is the calibration baseline read from \<^verbatim>\<open>calibrationRef\<close>.
\<close>

definition scaleRef :: "Landmarks \<Rightarrow> real \<Rightarrow> real" where
  "scaleRef landmarks baseline = max (max (getHandSize landmarks) baseline) 0.0001"

text \<open>The finger booleans and the hand shapes computed at the top of the function.\<close>

definition thumb :: "Landmarks \<Rightarrow> real \<Rightarrow> bool" where
  "thumb landmarks hs = isThumbExtended landmarks hs"

definition index :: "Landmarks \<Rightarrow> real \<Rightarrow> bool" where
  "index landmarks hs = isFingerExtended landmarks 5 6 8 hs"

definition middle :: "Landmarks \<Rightarrow> real \<Rightarrow> bool" where
  "middle landmarks hs = isFingerExtended landmarks 9 10 12 hs"

definition ring :: "Landmarks \<Rightarrow> real \<Rightarrow> bool" where
  "ring landmarks hs = isFingerExtended landmarks 13 14 16 hs"

definition pinky :: "Landmarks \<Rightarrow> real \<Rightarrow> bool" where
  "pinky landmarks hs = isFingerExtended landmarks 17 18 20 hs"

definition indexCurled :: "Landmarks \<Rightarrow> real \<Rightarrow> bool" where
  "indexCurled landmarks hs = isFingerCurled landmarks 5 6 8 hs"

definition middleCurled :: "Landmarks \<Rightarrow> real \<Rightarrow> bool" where
  "middleCurled landmarks hs = isFingerCurled landmarks 9 10 12 hs"

definition ringCurled :: "Landmarks \<Rightarrow> real \<Rightarrow> bool" where
  "ringCurled landmarks hs = isFingerCurled landmarks 13 14 16 hs"

definition pinkyCurled :: "Landmarks \<Rightarrow> real \<Rightarrow> bool" where
  "pinkyCurled landmarks hs = isFingerCurled landmarks 17 18 20 hs"

definition thumbSpreadOk :: "Landmarks \<Rightarrow> real \<Rightarrow> Landmark \<Rightarrow> bool" where
  "thumbSpreadOk landmarks hs thumbTip =
     (case lm_at landmarks 5 of
        Some indexMcp \<Rightarrow> dist_lm thumbTip indexMcp > 0.48 * hs
      | None \<Rightarrow> True)"

definition palmFour :: "Landmarks \<Rightarrow> real \<Rightarrow> bool" where
  "palmFour landmarks hs =
     (index landmarks hs \<and> middle landmarks hs \<and> ring landmarks hs \<and> pinky landmarks hs)"

definition openHand :: "Landmarks \<Rightarrow> real \<Rightarrow> Landmark \<Rightarrow> bool" where
  "openHand landmarks hs thumbTip =
     (thumbSpreadOk landmarks hs thumbTip \<and> thumb landmarks hs \<and> palmFour landmarks hs)"

definition fist :: "Landmarks \<Rightarrow> real \<Rightarrow> bool" where
  "fist landmarks hs =
     (indexCurled landmarks hs \<and> middleCurled landmarks hs \<and> ringCurled landmarks hs
      \<and> pinkyCurled landmarks hs
      \<and> \<not> index landmarks hs \<and> \<not> middle landmarks hs \<and> \<not> ring landmarks hs
      \<and> \<not> pinky landmarks hs)"

definition fourFingers :: "Landmarks \<Rightarrow> real \<Rightarrow> bool" where
  "fourFingers landmarks hs = (\<not> thumb landmarks hs \<and> palmFour landmarks hs)"

definition waterShape :: "Landmarks \<Rightarrow> real \<Rightarrow> bool" where
  "waterShape landmarks hs =
     (\<not> thumb landmarks hs \<and> index landmarks hs \<and> middle landmarks hs \<and> ring landmarks hs
      \<and> \<not> pinky landmarks hs)"

text \<open>The condition of the \<^verbatim>\<open>'assistance'\<close> rule (the ILY sign), written inline in the source.\<close>

definition assistanceShape :: "Landmarks \<Rightarrow> real \<Rightarrow> bool" where
  "assistanceShape landmarks hs =
     (thumb landmarks hs \<and> index landmarks hs \<and> pinky landmarks hs
      \<and> (middleCurled landmarks hs \<or> \<not> middle landmarks hs)
      \<and> (ringCurled landmarks hs \<or> \<not> ring landmarks hs))"

subsection \<open>The wave tracker\<close>

text \<open>\<^verbatim>\<open>waveRef\<close>, with the initial value of its \<^verbatim>\<open>useRef\<close> call, which is also the reset value.\<close>

record wave_state =
  w_lastX :: "real option"
  w_lastDir :: int
  w_flips :: nat
  w_startMs :: real
  w_minX :: real
  w_maxX :: real

definition wave_reset :: wave_state where
  "wave_reset = \<lparr>w_lastX = None, w_lastDir = 0, w_flips = 0, w_startMs = 0,
     w_minX = 1, w_maxX = 0\<rparr>"

definition wave_restart :: "real \<Rightarrow> wave_state \<Rightarrow> wave_state" where
  "wave_restart now s = s\<lparr>w_startMs := now, w_flips := 0, w_lastDir := 0, w_minX := 1, w_maxX := 0\<rparr>"

text \<open>
  The body of \<^verbatim>\<open>if (palmFour) { ... }\<close>: the updated tracker, and whether the block
  returns \<^verbatim>\<open>'goodbye'\<close>. \<open>now\<close> is the block's \<^verbatim>\<open>performance.now()\<close>, \<open>wx\<close> is
  \<^verbatim>\<open>wrist.x\<close>.
\<close>

definition waveStep :: "real \<Rightarrow> real \<Rightarrow> real \<Rightarrow> wave_state \<Rightarrow> bool \<times> wave_state" where
  "waveStep hs now wx s =
     (let dx = (case w_lastX s of None \<Rightarrow> 0 | Some lastX \<Rightarrow> wx - lastX);
          dirThreshold = 0.12 * hs;
          dir = (if dx > dirThreshold then 1 else if dx < - dirThreshold then - 1 else (0::int));
          s1 = (if w_startMs s = 0 then s\<lparr>w_startMs := now\<rparr> else s);
          s2 = (if dir \<noteq> 0 \<and> w_lastDir s1 \<noteq> 0 \<and> dir \<noteq> w_lastDir s1
                then s1\<lparr>w_flips := w_flips s1 + 1\<rparr> else s1);
          s3 = (if dir \<noteq> 0 then s2\<lparr>w_lastDir := dir\<rparr> else s2);
          s4 = s3\<lparr>w_lastX := Some wx, w_minX := min (w_minX s3) wx, w_maxX := max (w_maxX s3) wx\<rparr>;
          s5 = (if now - w_startMs s4 > 1700 then wave_restart now s4 else s4);
          amplitude = w_maxX s5 - w_minX s5
      in if now - w_startMs s5 > 450 \<and> w_flips s5 \<ge> 3 \<and> amplitude > 0.56 * hs
         then (True, wave_restart now s5)
         else (False, s5))"

subsection \<open>The stillness tracker\<close>

record still_state =
  s_lastX :: "real option"
  s_lastY :: "real option"
  s_stillMs :: real
  s_lastMs :: real

definition still_reset :: still_state where
  "still_reset = \<lparr>s_lastX = None, s_lastY = None, s_stillMs = 0, s_lastMs = 0\<rparr>"

text \<open>
  The body of \<^verbatim>\<open>if (openHand || fourFingers) { ... }\<close>: the gesture it returns, if any,
  and the updated tracker. \<^verbatim>\<open>st.lastMs || now\<close> takes \<open>now\<close> when the stored time is 0.
\<close>

definition stillStep :: "real \<Rightarrow> Landmark \<Rightarrow> still_state \<Rightarrow> GestureId option \<times> still_state" where
  "stillStep now wrist st =
     (let lastMs = (if s_lastMs st = 0 then now else s_lastMs st);
          dt = now - lastMs;
          dx = (case s_lastX st of None \<Rightarrow> 0 | Some lx \<Rightarrow> \<bar>lm_x wrist - lx\<bar>);
          dy = (case s_lastY st of None \<Rightarrow> 0 | Some ly \<Rightarrow> \<bar>lm_y wrist - ly\<bar>);
          isStill = (dx < 0.012 \<and> dy < 0.012);
          st1 = st\<lparr>s_stillMs := (if isStill then s_stillMs st + dt else 0),
                   s_lastX := Some (lm_x wrist), s_lastY := Some (lm_y wrist), s_lastMs := now\<rparr>;
          inStopZone = (lm_x wrist > 0.25 \<and> lm_x wrist < 0.75 \<and> lm_y wrist < 0.45);
          inChestZone = (lm_x wrist > 0.30 \<and> lm_x wrist < 0.70 \<and> lm_y wrist > 0.45)
      in if inStopZone \<and> s_stillMs st1 > 650 then (Some Stop, st1\<lparr>s_stillMs := 0\<rparr>)
         else if (inChestZone \<and> s_stillMs st1 > 650) \<or> s_stillMs st1 > 1100
              then (Some Please, st1\<lparr>s_stillMs := 0\<rparr>)
              else (None, st1))"

subsection \<open>The shape rules and the whole function\<close>

text \<open>The rules after the two trackers, from \<^verbatim>\<open>if (waterShape) return 'water'\<close> to the end.\<close>

definition shapeRules :: "Landmarks \<Rightarrow> real \<Rightarrow> Landmark \<Rightarrow> Landmark \<Rightarrow> Landmark \<Rightarrow> GestureId option" where
  "shapeRules landmarks hs wrist thumbTip thumbMcp =
     (if waterShape landmarks hs then Some Water
      else if assistanceShape landmarks hs then Some Assistance
      else if fourFingers landmarks hs then Some Thank_you
      else if thumb landmarks hs \<and> \<not> index landmarks hs \<and> \<not> middle landmarks hs
              \<and> \<not> ring landmarks hs \<and> \<not> pinky landmarks hs
      then (let yThresh = 0.24 * hs;
                up = (lm_y thumbTip < min (lm_y thumbMcp) (lm_y wrist) - yThresh);
                down = (lm_y thumbTip > max (lm_y thumbMcp) (lm_y wrist) + yThresh)
            in if down then Some No else if up then Some Good_okay else Some Good_okay)
      else if \<not> thumb landmarks hs \<and> index landmarks hs \<and> middle landmarks hs
              \<and> \<not> ring landmarks hs \<and> \<not> pinky landmarks hs then Some Help
      else if \<not> thumb landmarks hs \<and> index landmarks hs \<and> \<not> middle landmarks hs
              \<and> \<not> ring landmarks hs \<and> \<not> pinky landmarks hs then Some Wait
      else if fist landmarks hs then Some Yes
      else if openHand landmarks hs thumbTip then Some Hello
      else None)"

text \<open>The two tracker cells the classifier mutates.\<close>

record trackers =
  waveRef :: wave_state
  stillRef :: still_state

definition trackers_init :: trackers where
  "trackers_init = \<lparr>waveRef = wave_reset, stillRef = still_reset\<rparr>"

text \<open>
  The three points the function reads itself, or \<open>None\<close> when
  \<^verbatim>\<open>if (!wrist || !thumbTip || !thumbMcp) return null\<close> fires.
\<close>

definition classifyPoints :: "Landmarks \<Rightarrow> (Landmark \<times> Landmark \<times> Landmark) option" where
  "classifyPoints landmarks =
     (case lm_at landmarks 0 of
        None \<Rightarrow> None
      | Some wrist \<Rightarrow>
          (case lm_at landmarks 4 of
             None \<Rightarrow> None
           | Some thumbTip \<Rightarrow>
               (case lm_at landmarks 2 of
                  None \<Rightarrow> None
                | Some thumbMcp \<Rightarrow> Some (wrist, thumbTip, thumbMcp))))"

text \<open>
  \<^verbatim>\<open>classifyGesture\<close>. \<open>baseline\<close> is \<^verbatim>\<open>calibrationRef.current.baselineHandSize\<close>;
  \<open>nowW\<close> and \<open>nowS\<close> are the \<^verbatim>\<open>performance.now()\<close> readings of the wave block and of
  the stillness block. The result is the returned gesture (\<open>None\<close> for \<^verbatim>\<open>null\<close>) and
  the trackers as the call leaves them.
\<close>

definition classifyGesture ::
  "real \<Rightarrow> real \<Rightarrow> real \<Rightarrow> trackers \<Rightarrow> Landmarks \<Rightarrow> GestureId option \<times> trackers" where
  "classifyGesture baseline nowW nowS tr landmarks =
     (case classifyPoints landmarks of
        None \<Rightarrow> (None, tr)
      | Some (wrist, thumbTip, thumbMcp) \<Rightarrow>
          (let hs = scaleRef landmarks baseline;
               (bye, w1) = (if palmFour landmarks hs
                            then waveStep hs nowW (lm_x wrist) (waveRef tr)
                            else (False, wave_reset));
               tr1 = tr\<lparr>waveRef := w1\<rparr>
           in if bye then (Some Goodbye, tr1)
              else
                (let (held, s1) = (if openHand landmarks hs thumbTip \<or> fourFingers landmarks hs
                                   then stillStep nowS wrist (stillRef tr1)
                                   else (None, still_reset));
                     tr2 = tr1\<lparr>stillRef := s1\<rparr>
                 in case held of
                      Some g \<Rightarrow> (Some g, tr2)
                    | None \<Rightarrow> (shapeRules landmarks hs wrist thumbTip thumbMcp, tr2))))"

section \<open>The frame loop \<^verbatim>\<open>predict\<close>\<close>

subsection \<open>Calibration sampling\<close>

text \<open>\<^verbatim>\<open>calibrationRef\<close>; \<^verbatim>\<open>startCamera\<close> stores \<open>calibration_start now\<close> in it.\<close>

record calibration =
  baselineHandSize :: real
  brightness :: real
  isReady :: bool
  startedAt :: real
  samples :: nat
  sumHandSize :: real
  sumBrightness :: real

definition calibration_start :: "real \<Rightarrow> calibration" where
  "calibration_start now = \<lparr>baselineHandSize = 0, brightness = 0, isReady = False,
     startedAt = now, samples = 0, sumHandSize = 0, sumBrightness = 0\<rparr>"

text \<open>
  What one frame gives the calibration block: its \<^verbatim>\<open>performance.now()\<close>, the average
  luma of the canvas sample (absent when there is no canvas context or the read throws),
  and the detector's two hands (\<^verbatim>\<open>results.landmarks?.[0]\<close> and \<^verbatim>\<open>[1]\<close>, either absent).
\<close>

record calib_frame =
  cf_now :: real
  cf_avg :: "real option"
  cf_lm0 :: "Landmarks option"
  cf_lm1 :: "Landmarks option"

text \<open>
  The body of \<^verbatim>\<open>if (isCalibrating) { ... }\<close>: the updated cell, and whether this frame
  finalised the calibration (the block then calls \<^verbatim>\<open>setIsCalibrating(false)\<close>).
\<close>

definition calibrationStep :: "calibration \<Rightarrow> calib_frame \<Rightarrow> calibration \<times> bool" where
  "calibrationStep cal fr =
     (let elapsed = cf_now fr - startedAt cal;
          c1 = (case cf_avg fr of
                  Some avg \<Rightarrow> cal\<lparr>sumBrightness := sumBrightness cal + avg\<rparr>
                | None \<Rightarrow> cal);
          hs0 = (case cf_lm0 fr of Some lm0 \<Rightarrow> getHandSize lm0 | None \<Rightarrow> 0);
          hs1 = (case cf_lm1 fr of Some lm1 \<Rightarrow> getHandSize lm1 | None \<Rightarrow> 0);
          hs = max hs0 hs1;
          c2 = (if hs > 0 then c1\<lparr>sumHandSize := sumHandSize c1 + hs\<rparr> else c1);
          c3 = c2\<lparr>samples := samples c2 + 1\<rparr>
      in if elapsed \<ge> 3000
         then (let n = max 1 (samples c3)
               in (c3\<lparr>baselineHandSize := sumHandSize c3 / real n,
                       brightness := sumBrightness c3 / real n,
                       isReady := True\<rparr>, True))
         else (c3, False))"

text \<open>
  The calibration over a stream of frames: the block runs on each frame while
  \<^verbatim>\<open>isCalibrating\<close> holds, that is up to and including the first frame that finalises.
\<close>

fun calibrate :: "calibration \<Rightarrow> calib_frame list \<Rightarrow> calibration" where
  "calibrate cal [] = cal"
| "calibrate cal (fr # frs) =
     (case calibrationStep cal fr of
        (cal1, done) \<Rightarrow> if done then cal1 else calibrate cal1 frs)"

subsection \<open>The two-hand combiner\<close>

text \<open>
  The block \<^verbatim>\<open>let combined = null; if (lm0 && lm1 && lm0[0] && lm1[0]) { ... }\<close>, given
  the two single-hand results \<open>g0\<close> and \<open>g1\<close>.
\<close>

definition combine ::
  "real \<Rightarrow> Landmarks option \<Rightarrow> Landmarks option \<Rightarrow> GestureId option \<Rightarrow> GestureId option
     \<Rightarrow> GestureId option" where
  "combine baseline lm0 lm1 g0 g1 =
     (case lm0 of
        None \<Rightarrow> None
      | Some l0 \<Rightarrow>
          (case lm1 of
             None \<Rightarrow> None
           | Some l1 \<Rightarrow>
               (case lm_at l0 0 of
                  None \<Rightarrow> None
                | Some w0 \<Rightarrow>
                    (case lm_at l1 0 of
                       None \<Rightarrow> None
                     | Some w1 \<Rightarrow>
                         (let hs = max (max (max (getHandSize l0) (getHandSize l1)) baseline) 0.0001;
                              wristsClose = (dist_lm w0 w1 < 0.55 * hs);
                              lowHands = (lm_y w0 > 0.55 \<and> lm_y w1 > 0.55)
                          in if wristsClose \<and> lowHands \<and> g0 = Some Yes \<and> g1 = Some Yes
                             then Some Restroom
                             else if wristsClose
                                     \<and> (g0 = Some Hello \<or> g0 = Some Thank_you \<or> g0 = Some Please)
                                     \<and> (g1 = Some Hello \<or> g1 = Some Thank_you \<or> g1 = Some Please)
                                  then Some Please
                                  else None)))))"

text \<open>\<^verbatim>\<open>const candidate = combined ?? g0 ?? g1\<close>.\<close>

definition frameCandidate ::
  "GestureId option \<Rightarrow> GestureId option \<Rightarrow> GestureId option \<Rightarrow> GestureId option" where
  "frameCandidate combined g0 g1 =
     (case combined of
        Some c \<Rightarrow> Some c
      | None \<Rightarrow> (case g0 of Some g \<Rightarrow> Some g | None \<Rightarrow> g1))"

subsection \<open>The lock step\<close>

text \<open>
  The mutable cells the lock step reads and writes: \<^verbatim>\<open>lockStateRef\<close> (candidate and
  streak), \<^verbatim>\<open>lastSpokenGestureRef\<close> and \<^verbatim>\<open>lastSpokenTime\<close>. \<open>lock_init\<close> holds the
  initial values of their \<^verbatim>\<open>useRef\<close> calls.
\<close>

record lock_refs =
  lock_candidate :: "GestureId option"
  lock_streak :: nat
  lastSpokenGesture :: "GestureId option"
  lastSpokenTime :: int

definition lock_init :: lock_refs where
  "lock_init = \<lparr>lock_candidate = None, lock_streak = 0,
     lastSpokenGesture = None, lastSpokenTime = 0\<rparr>"

text \<open>
  What one frame feeds the lock step: the frame's candidate, the \<^verbatim>\<open>Date.now()\<close> read in
  \<^verbatim>\<open>predict\<close> and the \<^verbatim>\<open>Date.now()\<close> read at the start of \<^verbatim>\<open>speak\<close> (integer
  milliseconds; the second is read only on frames that emit).
\<close>

record frame =
  candidate :: "GestureId option"
  nowMs :: int
  speakMs :: int

definition LOCK_FRAMES :: nat where
  "LOCK_FRAMES = 10"

text \<open>
  The synchronous prefix of \<^verbatim>\<open>speak\<close>: it returns early inside its own 3-second
  cooldown and records the time otherwise. What follows that prefix is audio output.
\<close>

definition speak :: "lock_refs \<Rightarrow> int \<Rightarrow> lock_refs" where
  "speak st now =
     (if now - lastSpokenTime st < 3000 then st else st\<lparr>lastSpokenTime := now\<rparr>)"

definition updateStreak :: "lock_refs \<Rightarrow> GestureId option \<Rightarrow> lock_refs" where
  "updateStreak st c =
     (if c \<noteq> None \<and> c = lock_candidate st
      then st\<lparr>lock_streak := lock_streak st + 1\<rparr>
      else st\<lparr>lock_candidate := c, lock_streak := (if c \<noteq> None then 1 else 0)\<rparr>)"

text \<open>
  One frame of the lock step, from \<^verbatim>\<open>const lock = lockStateRef.current\<close> to the call of
  \<^verbatim>\<open>speak\<close>. The second component is the lock event: the arguments of the
  \<^verbatim>\<open>onPhrase\<close> call, if it is made.
\<close>

definition lockStep :: "lock_refs \<Rightarrow> frame \<Rightarrow> lock_refs \<times> (string \<times> GestureId) option" where
  "lockStep st fr =
     (let st1 = updateStreak st (candidate fr) in
      case candidate fr of
        None \<Rightarrow> (st1, None)
      | Some g \<Rightarrow>
          if LOCK_FRAMES \<le> lock_streak st1 then
            (let cooldownOk = (2500 \<le> nowMs fr - lastSpokenTime st1) in
             if cooldownOk \<and> lastSpokenGesture st1 \<noteq> Some g
             then (speak (st1\<lparr>lastSpokenGesture := Some g\<rparr>) (speakMs fr),
                   Some (GESTURE_PHRASE g, g))
             else (st1, None))
          else (st1, None))"

text \<open>A stream of frames through the lock step, with the lock events in order.\<close>

fun runFrames :: "lock_refs \<Rightarrow> frame list \<Rightarrow> lock_refs \<times> (string \<times> GestureId) list" where
  "runFrames st [] = (st, [])"
| "runFrames st (fr # frs) =
     (case lockStep st fr of (st1, ev) \<Rightarrow>
        (case runFrames st1 frs of (st2, evs) \<Rightarrow>
           (st2, (case ev of None \<Rightarrow> [] | Some e \<Rightarrow> [e]) @ evs)))"

section \<open>Auxiliary notions for the properties\<close>

text \<open>
  The streak a state holds for gesture \<open>A\<close>, the state after \<open>n\<close> further frames of \<open>A\<close>
  that emit nothing, and the state after the frame on which \<open>A\<close> locks.
\<close>

definition streakOf :: "lock_refs \<Rightarrow> GestureId \<Rightarrow> nat" where
  "streakOf st A = (if lock_candidate st = Some A then lock_streak st else 0)"

definition afterRun :: "lock_refs \<Rightarrow> GestureId \<Rightarrow> nat \<Rightarrow> lock_refs" where
  "afterRun st A n = st\<lparr>lock_candidate := Some A, lock_streak := streakOf st A + n\<rparr>"

definition locked :: "lock_refs \<Rightarrow> GestureId \<Rightarrow> frame \<Rightarrow> lock_refs" where
  "locked st A fr = speak ((afterRun st A LOCK_FRAMES)\<lparr>lastSpokenGesture := Some A\<rparr>) (speakMs fr)"

text \<open>
  A candidate stream delivered at 30 frames a second from time \<open>t\<close>, both clock reads of
  a frame giving the same millisecond.
\<close>

fun stream :: "int \<Rightarrow> GestureId option list \<Rightarrow> frame list" where
  "stream t [] = []"
| "stream t (c # cs) = \<lparr>candidate = c, nowMs = t, speakMs = t\<rparr> # stream (t + 33) cs"

text \<open>
  Uniform scaling of a hand about its wrist by the factor \<open>f\<close>, the transformation of the
  scale-invariance property: every point moves along its ray from the wrist (the depth,
  where both depths are present, as well). A hand without a wrist point is left as it is.
\<close>

definition scaleAbout :: "Landmark \<Rightarrow> real \<Rightarrow> Landmark \<Rightarrow> Landmark" where
  "scaleAbout w f p =
     \<lparr>lm_x = lm_x w + f * (lm_x p - lm_x w), lm_y = lm_y w + f * (lm_y p - lm_y w),
      lm_z = (case lm_z w of
                None \<Rightarrow> lm_z p
              | Some wz \<Rightarrow> map_option (\<lambda>z. wz + f * (z - wz)) (lm_z p))\<rparr>"

definition scaleLandmarks :: "real \<Rightarrow> Landmarks \<Rightarrow> Landmarks" where
  "scaleLandmarks f landmarks =
     (case lm_at landmarks 0 of
        None \<Rightarrow> landmarks
      | Some w \<Rightarrow> map (map_option (scaleAbout w f)) landmarks)"

text \<open>A point without depth.\<close>

definition pt :: "real \<Rightarrow> real \<Rightarrow> Landmark option" where
  "pt x y = Some \<lparr>lm_x = x, lm_y = y, lm_z = None\<rparr>"

text \<open>The classifier after its wave block, on a hand whose three points are present.\<close>

definition afterWave ::
  "real \<Rightarrow> trackers \<Rightarrow> Landmarks \<Rightarrow> real \<Rightarrow> Landmark \<Rightarrow> Landmark \<Rightarrow> Landmark \<Rightarrow> GestureId option" where
  "afterWave nowS tr lms hs w tt tm =
     (case (if openHand lms hs tt \<or> fourFingers lms hs
            then fst (stillStep nowS w (stillRef tr)) else None) of
        Some g \<Rightarrow> Some g
      | None \<Rightarrow> shapeRules lms hs w tt tm)"

subsection \<open>Sample hands\<close>

text \<open>
  Hands in normalised image coordinates, wrist at the bottom and fingers pointing up, in
  the detector's order: wrist; thumb CMC, MCP, IP, tip; then MCP, PIP, DIP, tip of the
  index, middle, ring and little finger. The wrist to middle-MCP distance of each is 0.2.

  \<open>hand_ily\<close>: thumb, index and little finger extended, middle and ring finger curled.
\<close>

definition hand_ily :: Landmarks where
  "hand_ily =
     [pt 0.5 0.8,
      pt 0.45 0.75, pt 0.4 0.7, pt 0.35 0.6, pt 0.3 0.5,
      pt 0.44 0.6, pt 0.44 0.5, pt 0.44 0.45, pt 0.44 0.4,
      pt 0.5 0.6, pt 0.5 0.5, pt 0.5 0.55, pt 0.5 0.62,
      pt 0.56 0.6, pt 0.56 0.5, pt 0.56 0.55, pt 0.56 0.62,
      pt 0.62 0.62, pt 0.62 0.54, pt 0.62 0.5, pt 0.62 0.45]"

text \<open>\<open>hand_four\<close>: the four fingers extended, the thumb tucked in.\<close>

definition hand_four :: Landmarks where
  "hand_four =
     [pt 0.5 0.8,
      pt 0.45 0.76, pt 0.42 0.72, pt 0.42 0.7, pt 0.44 0.7,
      pt 0.44 0.6, pt 0.44 0.5, pt 0.44 0.45, pt 0.44 0.4,
      pt 0.5 0.6, pt 0.5 0.5, pt 0.5 0.45, pt 0.5 0.4,
      pt 0.56 0.6, pt 0.56 0.5, pt 0.56 0.45, pt 0.56 0.4,
      pt 0.62 0.6, pt 0.62 0.5, pt 0.62 0.45, pt 0.62 0.4]"

text \<open>\<open>fistAt x y\<close>: a fist with its wrist at \<open>(x, y)\<close>, every finger tip folded back.\<close>

definition fistAt :: "real \<Rightarrow> real \<Rightarrow> Landmarks" where
  "fistAt x y =
     [pt x y,
      pt (x - 0.04) (y - 0.04), pt (x - 0.06) (y - 0.08), pt (x - 0.04) (y - 0.1), pt (x - 0.02) (y - 0.1),
      pt (x - 0.06) (y - 0.2), pt (x - 0.06) (y - 0.3), pt (x - 0.06) (y - 0.28), pt (x - 0.06) (y - 0.22),
      pt x (y - 0.2), pt x (y - 0.3), pt x (y - 0.28), pt x (y - 0.22),
      pt (x + 0.06) (y - 0.2), pt (x + 0.06) (y - 0.3), pt (x + 0.06) (y - 0.28), pt (x + 0.06) (y - 0.22),
      pt (x + 0.12) (y - 0.2), pt (x + 0.12) (y - 0.3), pt (x + 0.12) (y - 0.28), pt (x + 0.12) (y - 0.22)]"

text \<open>
  Hands with entries missing: \<open>thumb_only_hand\<close> stops after the thumb (an extended one),
  \<open>partial_hand\<close> after the thumb's MCP.
\<close>

definition thumb_only_hand :: Landmarks where
  "thumb_only_hand = [pt 0.5 0.8, pt 0.45 0.75, pt 0.4 0.7, pt 0.35 0.6, pt 0.3 0.5]"

definition partial_hand :: Landmarks where
  "partial_hand = [pt 0.5 0.8, pt 0.45 0.75, pt 0.4 0.7]"

text \<open>
  Trackers in the middle of a wave: the wrist was last seen at \<open>x = 0.48\<close> moving left, two
  direction flips are counted and the window opened a second before the frame at 2000 ms.
\<close>

definition waving :: trackers where
  "waving =
     \<lparr>waveRef = \<lparr>w_lastX = Some 0.48, w_lastDir = - 1, w_flips = 2, w_startMs = 1000,
                  w_minX = 0.4, w_maxX = 0.6\<rparr>,
      stillRef = \<lparr>s_lastX = Some 0.48, s_lastY = Some 0.8, s_stillMs = 0, s_lastMs = 1967\<rparr>\<rparr>"

text \<open>
  A calibration window of two frames: no hand at 1500 ms, one hand of size 0.2 at 3000 ms.
\<close>

definition calibration_run :: "calib_frame list" where
  "calibration_run =
     [\<lparr>cf_now = 1500, cf_avg = Some 0.5, cf_lm0 = None, cf_lm1 = None\<rparr>,
      \<lparr>cf_now = 3000, cf_avg = Some 0.5, cf_lm0 = Some (fistAt 0.5 0.8), cf_lm1 = None\<rparr>]"

subsection \<open>Lock events with their times\<close>

text \<open>
  The lock events of a stream of frames, each with the \<^verbatim>\<open>Date.now()\<close> that \<^verbatim>\<open>predict\<close>
  read on the frame that emitted it.
\<close>

fun lockTimes :: "lock_refs \<Rightarrow> frame list \<Rightarrow> (int \<times> GestureId) list" where
  "lockTimes st [] = []"
| "lockTimes st (fr # frs) =
     (case lockStep st fr of (st1, ev) \<Rightarrow>
        (case ev of None \<Rightarrow> [] | Some (phrase, g) \<Rightarrow> [(nowMs fr, g)]) @ lockTimes st1 frs)"

subsection \<open>Hands in the frame, hands near a hand, tests clear of their thresholds\<close>

text \<open>
  \<open>inFrame\<close>: every point present has normalised image coordinates, in \<open>[0, 1]\<close>.
  \<open>near \<eta> xs ys\<close>: the two hands have the same entries present, and each point of \<open>ys\<close>
  lies within \<open>\<eta>\<close> of the point of \<open>xs\<close>, in each coordinate.
\<close>

definition inFrame :: "Landmarks \<Rightarrow> bool" where
  "inFrame landmarks =
     list_all (\<lambda>p. case p of
                  None \<Rightarrow> True
                | Some q \<Rightarrow> 0 \<le> lm_x q \<and> lm_x q \<le> 1 \<and> 0 \<le> lm_y q \<and> lm_y q \<le> 1) landmarks"

definition near :: "real \<Rightarrow> Landmarks \<Rightarrow> Landmarks \<Rightarrow> bool" where
  "near \<eta> xs ys =
     list_all2 (rel_option (\<lambda>p q. \<bar>lm_x q - lm_x p\<bar> \<le> \<eta> \<and> \<bar>lm_y q - lm_y p\<bar> \<le> \<eta>)) xs ys"

text \<open>
  The comparison every finger test makes, \<open>x > y + k \<cdot> h\<^sup>2\<close>, and how far it is from
  being an equality.
\<close>

definition above :: "real \<Rightarrow> real \<Rightarrow> real \<Rightarrow> real \<Rightarrow> bool" where
  "above k x y h = (y + k * h\<^sup>2 < x)"

definition sq_margin :: "real \<Rightarrow> real \<Rightarrow> real \<Rightarrow> real \<Rightarrow> real" where
  "sq_margin k x y h = \<bar>x - (y + k * h\<^sup>2)\<bar>"

text \<open>
  A hand is clear by \<open>\<delta>\<close> when none of the comparisons that decide its shape is within
  \<open>\<delta>\<close> of equality: the two of \<^verbatim>\<open>isFingerExtended\<close> and the one of \<^verbatim>\<open>isFingerCurled\<close>
  for each finger, the two of \<^verbatim>\<open>isThumbExtended\<close>, the thumb-spread test and the
  thumb-down test. A test whose points are missing makes no comparison.
\<close>

definition fingerClear :: "real \<Rightarrow> Landmarks \<Rightarrow> nat \<Rightarrow> nat \<Rightarrow> nat \<Rightarrow> real \<Rightarrow> bool" where
  "fingerClear \<delta> landmarks mcp pip tip hs =
     (case fingerPoints landmarks mcp pip tip of
        None \<Rightarrow> True
      | Some (wrist, m, p, t) \<Rightarrow>
          (let h = max hs 0.0001 in
           \<delta> < sq_margin 0.16 (dist2 t wrist) (dist2 p wrist) h
           \<and> \<delta> < sq_margin 0.08 (dist2 p wrist) (dist2 m wrist) h
           \<and> \<delta> < sq_margin 0.128 (dist2 p wrist) (dist2 t wrist) h))"

definition thumbClear :: "real \<Rightarrow> Landmarks \<Rightarrow> real \<Rightarrow> bool" where
  "thumbClear \<delta> landmarks hs =
     (case fingerPoints landmarks 2 3 4 of
        None \<Rightarrow> True
      | Some (wrist, mcp, ip, tip) \<Rightarrow>
          (let h = max hs 0.0001 in
           \<delta> < sq_margin 0.128 (dist2 tip wrist) (dist2 ip wrist) h
           \<and> \<delta> < sq_margin 0.064 (dist2 ip wrist) (dist2 mcp wrist) h))"

text \<open>The test \<^verbatim>\<open>down\<close> of the thumb-only rule.\<close>

definition thumbDown :: "real \<Rightarrow> Landmark \<Rightarrow> Landmark \<Rightarrow> Landmark \<Rightarrow> bool" where
  "thumbDown hs wrist thumbTip thumbMcp =
     (max (lm_y thumbMcp) (lm_y wrist) + 0.24 * hs < lm_y thumbTip)"

definition spreadClear :: "real \<Rightarrow> Landmarks \<Rightarrow> real \<Rightarrow> bool" where
  "spreadClear \<delta> landmarks hs =
     (case classifyPoints landmarks of
        None \<Rightarrow> True
      | Some (wrist, thumbTip, thumbMcp) \<Rightarrow>
          (case lm_at landmarks 5 of
             None \<Rightarrow> True
           | Some indexMcp \<Rightarrow> \<delta> < \<bar>dist_lm thumbTip indexMcp - 0.48 * hs\<bar>))"

definition downClear :: "real \<Rightarrow> Landmarks \<Rightarrow> real \<Rightarrow> bool" where
  "downClear \<delta> landmarks hs =
     (case classifyPoints landmarks of
        None \<Rightarrow> True
      | Some (wrist, thumbTip, thumbMcp) \<Rightarrow>
          \<delta> < \<bar>lm_y thumbTip - (max (lm_y thumbMcp) (lm_y wrist) + 0.24 * hs)\<bar>)"

definition clearHand :: "real \<Rightarrow> Landmarks \<Rightarrow> real \<Rightarrow> bool" where
  "clearHand \<delta> landmarks hs =
     (thumbClear \<delta> landmarks hs
      \<and> fingerClear \<delta> landmarks 5 6 8 hs \<and> fingerClear \<delta> landmarks 9 10 12 hs
      \<and> fingerClear \<delta> landmarks 13 14 16 hs \<and> fingerClear \<delta> landmarks 17 18 20 hs
      \<and> spreadClear \<delta> landmarks hs \<and> downClear \<delta> landmarks hs)"

text \<open>
  The setting of the scale-invariance property: \<open>lms2\<close>, with scale reference \<open>hs2\<close>, is
  the hand \<open>lms\<close>, with scale reference \<open>hs\<close>, scaled about its wrist by \<open>f\<close>, up to \<open>\<eta>\<close>.
\<close>

definition scaledNear :: "real \<Rightarrow> real \<Rightarrow> Landmarks \<Rightarrow> real \<Rightarrow> Landmarks \<Rightarrow> real \<Rightarrow> bool" where
  "scaledNear f \<eta> lms hs lms2 hs2 \<longleftrightarrow>
     1 / 2 \<le> f \<and> f \<le> 2 \<and> 0 \<le> \<eta> \<and> \<eta> \<le> 1 \<and> inFrame lms
     \<and> lm_at lms2 0 = lm_at lms 0 \<and> near \<eta> (scaleLandmarks f lms) lms2
     \<and> 1 / 10000 \<le> hs \<and> hs \<le> 2 \<and> 1 / 10000 \<le> hs2 \<and> \<bar>hs2 - f * hs\<bar> \<le> \<eta>"

section \<open>Properties of the lock step\<close>

subsection \<open>Runs of one candidate\<close>

lemma updateStreak_Some: "updateStreak st (Some A) = afterRun st A 1"
  by (cases st) (simp add: updateStreak_def afterRun_def streakOf_def)

lemma afterRun_afterRun: "afterRun (afterRun st A m) A n = afterRun st A (m + n)"
  by (simp add: afterRun_def streakOf_def)

lemma afterRun_fields [simp]:
  "lastSpokenGesture (afterRun st A n) = lastSpokenGesture st"
  "lastSpokenTime (afterRun st A n) = lastSpokenTime st"
  "lock_candidate (afterRun st A n) = Some A"
  "lock_streak (afterRun st A n) = streakOf st A + n"
  by (simp_all add: afterRun_def)

lemma lockStep_below:
  "candidate fr = Some A \<Longrightarrow> streakOf st A + 1 < LOCK_FRAMES \<Longrightarrow>
   lockStep st fr = (afterRun st A 1, None)"
  by (simp add: lockStep_def updateStreak_Some Let_def)

lemma lockStep_suppressed:
  "candidate fr = Some A \<Longrightarrow> lastSpokenGesture st = Some A \<Longrightarrow>
   lockStep st fr = (afterRun st A 1, None)"
  by (simp add: lockStep_def updateStreak_Some Let_def)

lemma lockStep_emit:
  "candidate fr = Some A \<Longrightarrow> LOCK_FRAMES \<le> streakOf st A + 1 \<Longrightarrow>
   2500 \<le> nowMs fr - lastSpokenTime st \<Longrightarrow> lastSpokenGesture st \<noteq> Some A \<Longrightarrow>
   lockStep st fr =
     (speak ((afterRun st A 1)\<lparr>lastSpokenGesture := Some A\<rparr>) (speakMs fr),
      Some (GESTURE_PHRASE A, A))"
  by (simp add: lockStep_def updateStreak_Some Let_def)

lemma lockStep_None:
  "candidate fr = None \<Longrightarrow>
   lockStep st fr = (st\<lparr>lock_candidate := None, lock_streak := 0\<rparr>, None)"
  by (simp add: lockStep_def updateStreak_def)

lemma runFrames_append:
  "runFrames st (xs @ ys) =
     (case runFrames st xs of (st1, e1) \<Rightarrow>
        (case runFrames st1 ys of (st2, e2) \<Rightarrow> (st2, e1 @ e2)))"
  by (induction xs arbitrary: st) (auto split: prod.splits option.splits)

lemma runFrames_quiet:
  "\<forall>f\<in>set fs. candidate f = Some A \<Longrightarrow> fs \<noteq> [] \<Longrightarrow>
   streakOf st A + length fs < LOCK_FRAMES \<Longrightarrow>
   runFrames st fs = (afterRun st A (length fs), [])"
proof (induction fs arbitrary: st)
  case Nil
  then show ?case by simp
next
  case (Cons f fs)
  have step: "lockStep st f = (afterRun st A 1, None)"
    using Cons.prems by (intro lockStep_below) auto
  show ?case
  proof (cases "fs = []")
    case True
    then show ?thesis using step by simp
  next
    case False
    have "runFrames (afterRun st A 1) fs = (afterRun (afterRun st A 1) A (length fs), [])"
      using Cons.prems False by (intro Cons.IH) (auto simp: streakOf_def)
    then show ?thesis using step by (simp add: afterRun_afterRun)
  qed
qed

lemma runFrames_suppressed:
  "\<forall>f\<in>set fs. candidate f = Some A \<Longrightarrow> fs \<noteq> [] \<Longrightarrow>
   lastSpokenGesture st = Some A \<Longrightarrow>
   runFrames st fs = (afterRun st A (length fs), [])"
proof (induction fs arbitrary: st)
  case Nil
  then show ?case by simp
next
  case (Cons f fs)
  have step: "lockStep st f = (afterRun st A 1, None)"
    using Cons.prems by (intro lockStep_suppressed) auto
  show ?case
  proof (cases "fs = []")
    case True
    then show ?thesis using step by simp
  next
    case False
    have "runFrames (afterRun st A 1) fs = (afterRun (afterRun st A 1) A (length fs), [])"
      using Cons.prems False by (intro Cons.IH) auto
    then show ?thesis using step by (simp add: afterRun_afterRun)
  qed
qed


lemma speak_fields [simp]:
  "lock_candidate (speak st t) = lock_candidate st"
  "lock_streak (speak st t) = lock_streak st"
  "lastSpokenGesture (speak st t) = lastSpokenGesture st"
  by (simp_all add: speak_def)

lemma speak_time: "lastSpokenTime (speak st t) = lastSpokenTime st \<or> lastSpokenTime (speak st t) = t"
  by (simp add: speak_def)

lemma streakOf_other: "lock_candidate st \<noteq> Some A \<Longrightarrow> streakOf st A = 0"
  by (simp add: streakOf_def)

lemma map_candidate_replicate:
  "map candidate fs = replicate n c \<longleftrightarrow> length fs = n \<and> (\<forall>f\<in>set fs. candidate f = c)"
proof (induction fs arbitrary: n)
  case Nil
  then show ?case by auto
next
  case (Cons f fs)
  show ?case
  proof (cases n)
    case 0
    then show ?thesis by simp
  next
    case (Suc m)
    then show ?thesis using Cons.IH [of m] by auto
  qed
qed

lemma runFrames_nine:
  assumes "map candidate fs = replicate 9 (Some A)" "lock_candidate st \<noteq> Some A"
  shows "runFrames st fs = (afterRun st A 9, [])"
proof -
  have "length fs = 9" "\<forall>f\<in>set fs. candidate f = Some A"
    using assms(1) by (simp_all add: map_candidate_replicate)
  moreover from this have "fs \<noteq> []" by auto
  ultimately show ?thesis
    using runFrames_quiet [of fs A st] streakOf_other [OF assms(2)]
    by (simp add: LOCK_FRAMES_def)
qed

lemma runFrames_ten:
  assumes "map candidate fs = replicate 10 (Some A)"
    and "lock_candidate st \<noteq> Some A"
    and "lastSpokenGesture st \<noteq> Some A"
    and "2500 \<le> nowMs (last fs) - lastSpokenTime st"
  shows "runFrames st fs = (locked st A (last fs), [(GESTURE_PHRASE A, A)])"
proof -
  have len: "length fs = 10" and all: "\<forall>f\<in>set fs. candidate f = Some A"
    using assms(1) by (simp_all add: map_candidate_replicate)
  then have ne: "fs \<noteq> []" by auto
  have split: "fs = butlast fs @ [last fs]" using ne by simp
  have "map candidate (butlast fs) = replicate 9 (Some A)"
    using len all by (auto simp: map_candidate_replicate dest: in_set_butlastD)
  then have quiet: "runFrames st (butlast fs) = (afterRun st A 9, [])"
    using assms(2) by (rule runFrames_nine)
  have cl: "candidate (last fs) = Some A" using all ne by simp
  have "lockStep (afterRun st A 9) (last fs) =
      (speak ((afterRun (afterRun st A 9) A 1)\<lparr>lastSpokenGesture := Some A\<rparr>) (speakMs (last fs)),
       Some (GESTURE_PHRASE A, A))"
    using cl assms(3,4) by (intro lockStep_emit) (simp_all add: streakOf_def LOCK_FRAMES_def)
  then have emit: "lockStep (afterRun st A 9) (last fs) = (locked st A (last fs), Some (GESTURE_PHRASE A, A))"
    by (simp add: afterRun_afterRun locked_def LOCK_FRAMES_def)
  have "runFrames st (butlast fs @ [last fs]) = (locked st A (last fs), [(GESTURE_PHRASE A, A)])"
    by (simp add: runFrames_append quiet emit)
  then show ?thesis using split by simp
qed

lemma locked_fields [simp]:
  "lock_candidate (locked st A fr) = Some A"
  "lastSpokenGesture (locked st A fr) = Some A"
  by (simp_all add: locked_def)

lemma locked_time:
  "lastSpokenTime (locked st A fr) = lastSpokenTime st \<or> lastSpokenTime (locked st A fr) = speakMs fr"
  using speak_time [of "(afterRun st A LOCK_FRAMES)\<lparr>lastSpokenGesture := Some A\<rparr>" "speakMs fr"]
  by (simp add: locked_def)

subsection \<open>Consecutive lock events\<close>

lemma lockStep_quiet_gesture:
  "lockStep st fr = (st1, None) \<Longrightarrow> lastSpokenGesture st1 = lastSpokenGesture st"
  by (cases "candidate fr")
     (auto simp: lockStep_def updateStreak_Some updateStreak_def Let_def split: if_splits)

lemma lockStep_emit_gesture:
  "lockStep st fr = (st1, Some (p, g)) \<Longrightarrow>
   lastSpokenGesture st \<noteq> Some g \<and> lastSpokenGesture st1 = Some g"
  by (cases "candidate fr")
     (auto simp: lockStep_def updateStreak_Some lockStep_None Let_def split: if_splits)

lemma runFrames_alternate:
  "distinct_adj (lastSpokenGesture st # map (\<lambda>e. Some (snd e)) (snd (runFrames st fs)))"
proof (induction fs arbitrary: st)
  case Nil
  then show ?case by simp
next
  case (Cons f fs)
  obtain st1 ev where step: "lockStep st f = (st1, ev)" by (cases "lockStep st f") auto
  obtain st2 evs where rest: "runFrames st1 fs = (st2, evs)" by (cases "runFrames st1 fs") auto
  show ?case
  proof (cases ev)
    case None
    then show ?thesis
      using step rest Cons.IH [of st1] lockStep_quiet_gesture [of st f st1]
      by simp
  next
    case (Some e)
    obtain p g where e: "e = (p, g)" by (cases e) auto
    show ?thesis
      using step rest Some e Cons.IH [of st1] lockStep_emit_gesture [of st f st1 p g]
      by simp
  qed
qed

subsection \<open>The recorded time\<close>

lemma runFrames_quiet_time:
  "snd (runFrames st fs) = [] \<Longrightarrow> lastSpokenTime (fst (runFrames st fs)) = lastSpokenTime st"
proof (induction fs arbitrary: st)
  case Nil
  then show ?case by simp
next
  case (Cons f fs)
  obtain st1 ev where step: "lockStep st f = (st1, ev)" by (cases "lockStep st f") auto
  obtain st2 evs where rest: "runFrames st1 fs = (st2, evs)" by (cases "runFrames st1 fs") auto
  from Cons.prems step rest have ev: "ev = None" and evs: "evs = []"
    by (auto split: option.splits)
  have "lastSpokenTime st1 = lastSpokenTime st"
    using step ev
    by (cases "candidate f")
       (auto simp: lockStep_def updateStreak_Some updateStreak_def Let_def split: if_splits)
  moreover have "lastSpokenTime st2 = lastSpokenTime st1"
    using Cons.IH [of st1] rest evs by simp
  ultimately show ?case using step rest by simp
qed

lemma lockStep_emits_iff:
  "(snd (lockStep st fr) \<noteq> None) \<longleftrightarrow>
     (candidate fr \<noteq> None \<and> LOCK_FRAMES \<le> lock_streak (fst (lockStep st fr))
      \<and> 2500 \<le> nowMs fr - lastSpokenTime st
      \<and> candidate fr \<noteq> lastSpokenGesture st)"
  by (cases "candidate fr")
     (auto simp: lockStep_def updateStreak_Some Let_def lockStep_None)

lemma lockStep_time:
  "lastSpokenTime (fst (lockStep st fr)) =
     (if snd (lockStep st fr) \<noteq> None \<and> 3000 \<le> speakMs fr - lastSpokenTime st
      then speakMs fr else lastSpokenTime st)"
  by (cases "candidate fr")
     (auto simp: lockStep_def updateStreak_Some updateStreak_def Let_def speak_def)

lemma runFrames_held:
  assumes "map candidate fs = replicate n (Some A)" and "lastSpokenGesture st = Some A"
  shows "snd (runFrames st fs) = []"
proof (cases "fs = []")
  case True
  then show ?thesis by simp
next
  case False
  have "\<forall>f\<in>set fs. candidate f = Some A"
    using assms(1) by (simp add: map_candidate_replicate)
  then show ?thesis
    using runFrames_suppressed [of fs A st] False assms(2) by simp
qed

subsection \<open>Lock debounce\<close>

text \<open>
  Claim C2, as stated, says that the candidate stream of nine frames of \<open>A\<close>, one frame
  without a candidate and ten frames of \<open>A\<close> emits no lock event. The code does reset the
  streak on the empty frame, but the ten frames that follow build a full streak of their
  own: from the initial state, with the clock at a present-day \<^verbatim>\<open>Date.now()\<close>, the stream
  emits the lock for \<open>Hello\<close>.
\<close>

theorem lock_debounce_counterexample:
  "snd (runFrames lock_init
     (stream 1700000000000 (replicate 9 (Some Hello) @ [None] @ replicate 10 (Some Hello))))
   = [(''Hello'', Hello)]"
  by code_simp

text \<open>
  Claim C2, amended: a stream whose candidates are nine times \<open>A\<close>, then none, then ten times
  \<open>A\<close> emits no lock event during its first nineteen frames (the streak resets on the empty
  frame) and exactly one lock event for \<open>A\<close> in all, on its twentieth frame, when the new
  streak reaches \<open>LOCK_FRAMES\<close>; a stream of ten times \<open>A\<close> alone emits exactly one lock
  event for \<open>A\<close>. Both start from a state that holds no streak for \<open>A\<close>, with \<open>A\<close> different
  from the last locked gesture and the cooldown of 2500 ms satisfied on the last frame.
\<close>

theorem lock_debounce:
  assumes fs: "map candidate fs = replicate 9 (Some A) @ [None] @ replicate 10 (Some A)"
    and gs: "map candidate gs = replicate 10 (Some A)"
    and idle: "lock_candidate st \<noteq> Some A"
    and other: "lastSpokenGesture st \<noteq> Some A"
    and cool_fs: "2500 \<le> nowMs (last fs) - lastSpokenTime st"
    and cool_gs: "2500 \<le> nowMs (last gs) - lastSpokenTime st"
  shows "snd (runFrames st (butlast fs)) = [] \<and>
         snd (runFrames st fs) = [(GESTURE_PHRASE A, A)] \<and>
         snd (runFrames st gs) = [(GESTURE_PHRASE A, A)]"
proof -
  from fs obtain as r where r: "fs = as @ r" "map candidate as = replicate 9 (Some A)"
      "map candidate r = [None] @ replicate 10 (Some A)"
    by (auto simp: map_eq_append_conv)
  from r(3) obtain n bs where b: "r = n # bs" "candidate n = None"
      "map candidate bs = replicate 10 (Some A)"
    by (auto simp: map_eq_Cons_conv)
  define st1 where "st1 = (afterRun st A 9)\<lparr>lock_candidate := None, lock_streak := 0\<rparr>"
  have run_as: "runFrames st as = (afterRun st A 9, [])"
    using r(2) idle by (rule runFrames_nine)
  have step_n: "lockStep (afterRun st A 9) n = (st1, None)"
    using b(2) by (simp add: lockStep_None st1_def)
  have st1: "lock_candidate st1 \<noteq> Some A" "lastSpokenGesture st1 \<noteq> Some A"
      "lastSpokenTime st1 = lastSpokenTime st"
    using other by (simp_all add: st1_def)
  have len_bs: "length bs = 10" using b(3) by (simp add: map_candidate_replicate)
  then have bs_ne: "bs \<noteq> []" by auto
  have last_fs: "last fs = last bs" using r(1) b(1) bs_ne by simp
  have "map candidate (butlast bs) = replicate 9 (Some A)"
    using b(3) len_bs by (auto simp: map_candidate_replicate dest: in_set_butlastD)
  then have run_bb: "runFrames st1 (butlast bs) = (afterRun st1 A 9, [])"
    using st1(1) by (rule runFrames_nine)
  have run_bs: "runFrames st1 bs = (locked st1 A (last bs), [(GESTURE_PHRASE A, A)])"
    using b(3) st1(1,2) cool_fs by (intro runFrames_ten) (simp_all add: st1(3) last_fs)
  have bl: "butlast fs = as @ n # butlast bs"
    using r(1) b(1) bs_ne by (simp add: butlast_append)
  have "snd (runFrames st (butlast fs)) = []"
    by (simp add: bl runFrames_append run_as step_n run_bb)
  moreover have "snd (runFrames st fs) = [(GESTURE_PHRASE A, A)]"
    by (simp add: r(1) b(1) runFrames_append run_as step_n run_bs)
  moreover have "snd (runFrames st gs) = [(GESTURE_PHRASE A, A)]"
    using runFrames_ten [OF gs idle other cool_gs] by simp
  ultimately show ?thesis by simp
qed

theorem lock_debounce_witness:
  "snd (runFrames lock_init (butlast (stream 1700000000000
          (replicate 9 (Some Wait) @ [None] @ replicate 10 (Some Wait))))) = [] \<and>
   snd (runFrames lock_init (stream 1700000000000
          (replicate 9 (Some Wait) @ [None] @ replicate 10 (Some Wait)))) = [(''Wait'', Wait)] \<and>
   snd (runFrames lock_init (stream 1700000000000 (replicate 10 (Some Wait)))) = [(''Wait'', Wait)]"
proof -
  let ?fs = "stream 1700000000000 (replicate 9 (Some Wait) @ [None] @ replicate 10 (Some Wait))"
  let ?gs = "stream 1700000000000 (replicate 10 (Some Wait))"
  have h1: "map candidate ?fs = replicate 9 (Some Wait) @ [None] @ replicate 10 (Some Wait)"
    by code_simp
  have h2: "map candidate ?gs = replicate 10 (Some Wait)"
    by code_simp
  have h3: "lock_candidate lock_init \<noteq> Some Wait" "lastSpokenGesture lock_init \<noteq> Some Wait"
    by (simp_all add: lock_init_def)
  have h4: "2500 \<le> nowMs (last ?fs) - lastSpokenTime lock_init"
    by code_simp
  have h5: "2500 \<le> nowMs (last ?gs) - lastSpokenTime lock_init"
    by code_simp
  show ?thesis
    using lock_debounce [OF h1 h2 h3 h4 h5] by simp
qed

subsection \<open>When a lock event is emitted\<close>

text \<open>
  Claim C3, as stated, measures the cooldown from the time of the last lock. The code
  measures it from the cell \<^verbatim>\<open>lastSpokenTime\<close>, and \<^verbatim>\<open>speak\<close> leaves that cell as it is
  when it is called less than 3000 ms after the time it holds. Three streaks of ten
  frames, of \<open>Help\<close>, \<open>Wait\<close> and \<open>Water\<close>, begin 0, 2603 and 2933 ms after the first frame.
  \<open>Help\<close> locks at 297 ms and its time is recorded; \<open>Wait\<close> locks at 2900 ms, 2603 ms
  after the recorded time, and its time is not recorded; \<open>Water\<close> locks at 3230 ms: a lock
  event 330 ms after the last lock, with much less than the cooldown elapsed.
\<close>

theorem lock_emission_counterexample:
  "lockTimes lock_init
     (stream 1700000000000 (replicate 10 (Some Help))
      @ stream 1700000002603 (replicate 10 (Some Wait))
      @ stream 1700000002933 (replicate 10 (Some Water)))
   = [(1700000000297, Help), (1700000002900, Wait), (1700000003230, Water)]"
  by code_simp

text \<open>
  Claim C3, amended. On every frame the lock step emits a lock event if and only if the
  frame's candidate is not null and its streak, as updated by this frame, has reached
  \<open>LOCK_FRAMES = 10\<close>, at least 2500 ms (the cooldown of this pipeline) have passed since
  the recorded time \<^verbatim>\<open>lastSpokenTime\<close>, and the candidate differs from the last locked
  gesture \<^verbatim>\<open>lastSpokenGestureRef\<close>. The recorded time is the time of a lock only when that
  lock came at least 3000 ms after the time recorded before it: the step sets the cell to
  the clock reading of \<^verbatim>\<open>speak\<close> on such a frame and leaves it as it is on every other
  frame. So the cooldown holds after a lock that is recorded: when the frame \<open>fr\<close> emits
  and is recorded, the frames \<open>fs\<close> after it emit nothing and the frame \<open>fr2\<close> after them
  emits, then \<open>fr2\<close> comes at least 2500 ms after \<open>fr\<close>.
\<close>

theorem lock_emission_iff:
  "((snd (lockStep st fr) \<noteq> None) \<longleftrightarrow>
      (candidate fr \<noteq> None \<and> LOCK_FRAMES \<le> lock_streak (fst (lockStep st fr))
       \<and> LOCK_FRAMES = 10
       \<and> 2500 \<le> nowMs fr - lastSpokenTime st
       \<and> candidate fr \<noteq> lastSpokenGesture st))
   \<and> lastSpokenTime (fst (lockStep st fr)) =
       (if snd (lockStep st fr) \<noteq> None \<and> 3000 \<le> speakMs fr - lastSpokenTime st
        then speakMs fr else lastSpokenTime st)
   \<and> (snd (lockStep st fr) \<noteq> None \<and> 3000 \<le> speakMs fr - lastSpokenTime st
       \<and> snd (runFrames (fst (lockStep st fr)) fs) = []
       \<and> snd (lockStep (fst (runFrames (fst (lockStep st fr)) fs)) fr2) \<noteq> None
       \<longrightarrow> 2500 \<le> nowMs fr2 - speakMs fr)"
proof -
  have "2500 \<le> nowMs fr2 - speakMs fr"
    if e1: "snd (lockStep st fr) \<noteq> None" and rec: "3000 \<le> speakMs fr - lastSpokenTime st"
      and q: "snd (runFrames (fst (lockStep st fr)) fs) = []"
      and e2: "snd (lockStep (fst (runFrames (fst (lockStep st fr)) fs)) fr2) \<noteq> None"
  proof -
    have "lastSpokenTime (fst (lockStep st fr)) = speakMs fr"
      using e1 rec by (simp add: lockStep_time)
    then have "lastSpokenTime (fst (runFrames (fst (lockStep st fr)) fs)) = speakMs fr"
      using runFrames_quiet_time [OF q] by simp
    then show ?thesis
      using e2 lockStep_emits_iff [of "fst (runFrames (fst (lockStep st fr)) fs)" fr2] by simp
  qed
  then show ?thesis
    using lockStep_emits_iff [of st fr] lockStep_time [of st fr]
    by (simp add: LOCK_FRAMES_def)
qed

text \<open>
  The amended claim at a lock of \<open>Help\<close> on the tenth frame of its streak, recorded, and
  the lock of \<open>Wait\<close> that ends the nine quiet frames after it, 2603 ms later.
\<close>

theorem lock_emission_iff_witness:
  "snd (lockStep \<lparr>lock_candidate = Some Help, lock_streak = 9,
                  lastSpokenGesture = None, lastSpokenTime = 0\<rparr>
                \<lparr>candidate = Some Help, nowMs = 1700000000297, speakMs = 1700000000297\<rparr>)
     = Some (''Help'', Help)
   \<and> lastSpokenTime (fst (lockStep \<lparr>lock_candidate = Some Help, lock_streak = 9,
                  lastSpokenGesture = None, lastSpokenTime = 0\<rparr>
                \<lparr>candidate = Some Help, nowMs = 1700000000297, speakMs = 1700000000297\<rparr>))
     = 1700000000297
   \<and> snd (lockStep
          (fst (runFrames
             (fst (lockStep \<lparr>lock_candidate = Some Help, lock_streak = 9,
                  lastSpokenGesture = None, lastSpokenTime = 0\<rparr>
                \<lparr>candidate = Some Help, nowMs = 1700000000297, speakMs = 1700000000297\<rparr>))
             (stream 1700000002603 (replicate 9 (Some Wait)))))
          \<lparr>candidate = Some Wait, nowMs = 1700000002900, speakMs = 1700000002900\<rparr>)
     = Some (''Wait'', Wait)
   \<and> (2500::int) \<le> nowMs \<lparr>candidate = Some Wait, nowMs = 1700000002900, speakMs = 1700000002900\<rparr>
        - speakMs \<lparr>candidate = Some Help, nowMs = 1700000000297, speakMs = 1700000000297\<rparr>"
proof -
  let ?st = "\<lparr>lock_candidate = Some Help, lock_streak = 9,
                  lastSpokenGesture = None, lastSpokenTime = 0\<rparr>"
  let ?fr = "\<lparr>candidate = Some Help, nowMs = 1700000000297, speakMs = 1700000000297\<rparr>"
  let ?fs = "stream 1700000002603 (replicate 9 (Some Wait))"
  let ?fr2 = "\<lparr>candidate = Some Wait, nowMs = 1700000002900, speakMs = 1700000002900\<rparr>"
  have e1: "snd (lockStep ?st ?fr) = Some (''Help'', Help)" by code_simp
  have rec: "3000 \<le> speakMs ?fr - lastSpokenTime ?st" by simp
  have q: "snd (runFrames (fst (lockStep ?st ?fr)) ?fs) = []" by code_simp
  have e2: "snd (lockStep (fst (runFrames (fst (lockStep ?st ?fr)) ?fs)) ?fr2) = Some (''Wait'', Wait)"
    by code_simp
  have t: "lastSpokenTime (fst (lockStep ?st ?fr)) = 1700000000297"
    using lock_emission_iff [of ?st ?fr ?fs ?fr2] e1 by simp
  have c: "2500 \<le> nowMs ?fr2 - speakMs ?fr"
    using lock_emission_iff [of ?st ?fr ?fs ?fr2] e1 rec q e2 by simp
  from e1 t e2 c show ?thesis by (intro conjI)
qed

subsection \<open>No repeat of the same gesture\<close>

text \<open>
  Claim C4: a full streak of \<open>A\<close> followed by more frames of \<open>A\<close>, ten as in the claim or
  any other number, at any times (the gesture held in view), emits the lock for \<open>A\<close>
  exactly once. Ten frames of \<open>A\<close>, ten of a different gesture \<open>B\<close> and ten of \<open>A\<close> again,
  with the cooldown elapsed between the streaks and the clock not running backwards
  inside a frame, emit exactly three lock events, for \<open>A\<close>, \<open>B\<close> and \<open>A\<close>. The streams start
  from a state that holds no streak for \<open>A\<close>, whose last locked gesture is not \<open>A\<close> and whose
  recorded time is at least 2500 ms before the tenth frame. And in every run, from any
  state \<open>st'\<close> and over any frames \<open>fs\<close>, a lock event never names the gesture of the lock
  event before it (or, for the first one, the last locked gesture of \<open>st'\<close>): the same
  gesture is emitted again only after a different gesture has been locked in between.
\<close>

theorem no_repeat_suppression:
  assumes as: "map candidate as = replicate 10 (Some A)"
    and as2: "map candidate as2 = replicate n (Some A)"
    and fresh: "lock_candidate st \<noteq> Some A" "lastSpokenGesture st \<noteq> Some A"
    and c1: "2500 \<le> nowMs (last as) - lastSpokenTime st"
  shows "snd (runFrames st (as @ as2)) = [(GESTURE_PHRASE A, A)] \<and>
         (A \<noteq> B \<and> map candidate bs = replicate 10 (Some B)
            \<and> map candidate as3 = replicate 10 (Some A)
            \<and> nowMs (last as) \<le> speakMs (last as)
            \<and> 2500 \<le> nowMs (last bs) - speakMs (last as)
            \<and> nowMs (last bs) \<le> speakMs (last bs)
            \<and> 2500 \<le> nowMs (last as3) - speakMs (last bs)
          \<longrightarrow> snd (runFrames st (as @ bs @ as3)) =
                [(GESTURE_PHRASE A, A), (GESTURE_PHRASE B, B), (GESTURE_PHRASE A, A)]) \<and>
         distinct_adj (lastSpokenGesture st' # map (\<lambda>e. Some (snd e)) (snd (runFrames st' fs)))"
proof -
  define s1 where "s1 = locked st A (last as)"
  have run1: "runFrames st as = (s1, [(GESTURE_PHRASE A, A)])"
    unfolding s1_def using as fresh c1 by (rule runFrames_ten)
  have held: "snd (runFrames s1 as2) = []"
    using as2 by (rule runFrames_held) (simp add: s1_def)
  obtain s1' where "runFrames s1 as2 = (s1', [])"
    using held by (cases "runFrames s1 as2") auto
  then have first: "snd (runFrames st (as @ as2)) = [(GESTURE_PHRASE A, A)]"
    by (simp add: runFrames_append run1)
  have second: "snd (runFrames st (as @ bs @ as3)) =
           [(GESTURE_PHRASE A, A), (GESTURE_PHRASE B, B), (GESTURE_PHRASE A, A)]"
    if ab: "A \<noteq> B" and bs: "map candidate bs = replicate 10 (Some B)"
      and as3: "map candidate as3 = replicate 10 (Some A)"
      and m1: "nowMs (last as) \<le> speakMs (last as)"
      and c2: "2500 \<le> nowMs (last bs) - speakMs (last as)"
      and m2: "nowMs (last bs) \<le> speakMs (last bs)"
      and c3: "2500 \<le> nowMs (last as3) - speakMs (last bs)"
  proof -
    define s2 where "s2 = locked s1 B (last bs)"
    have t1: "lastSpokenTime s1 \<le> speakMs (last as)"
      using locked_time [of st A "last as"] c1 m1 by (auto simp: s1_def)
    have s1B: "lock_candidate s1 \<noteq> Some B" "lastSpokenGesture s1 \<noteq> Some B"
      using ab by (simp_all add: s1_def)
    have "2500 \<le> nowMs (last bs) - lastSpokenTime s1" using t1 c2 by linarith
    with bs s1B have run2: "runFrames s1 bs = (s2, [(GESTURE_PHRASE B, B)])"
      unfolding s2_def by (rule runFrames_ten)
    have t2: "lastSpokenTime s2 \<le> speakMs (last bs)"
      using locked_time [of s1 B "last bs"] t1 c2 m2 by (auto simp: s2_def)
    have s2A: "lock_candidate s2 \<noteq> Some A" "lastSpokenGesture s2 \<noteq> Some A"
      using ab by (simp_all add: s2_def)
    have "2500 \<le> nowMs (last as3) - lastSpokenTime s2" using t2 c3 by linarith
    with as3 s2A have run3: "runFrames s2 as3 = (locked s2 A (last as3), [(GESTURE_PHRASE A, A)])"
      by (rule runFrames_ten)
    show ?thesis
      by (simp add: runFrames_append run1 run2 run3)
  qed
  from first second runFrames_alternate [of st' fs] show ?thesis by blast
qed

text \<open>
  The claim at \<open>Help\<close> held for twenty frames in a row at 30 frames a second, and at
  \<open>Help\<close>, \<open>Stop\<close>, \<open>Help\<close> with three seconds between the streaks.
\<close>

theorem no_repeat_suppression_witness:
  "snd (runFrames lock_init (stream 1700000000000 (replicate 20 (Some Help)))) = [(''Help'', Help)] \<and>
   snd (runFrames lock_init
          (stream 1700000000000 (replicate 10 (Some Help))
           @ stream 1700000003000 (replicate 10 (Some Stop))
           @ stream 1700000006000 (replicate 10 (Some Help))))
     = [(''Help'', Help), (''Please stop'', Stop), (''Help'', Help)] \<and>
   distinct_adj (lastSpokenGesture lock_init # map (\<lambda>e. Some (snd e))
     (snd (runFrames lock_init (stream 1700000000000 (replicate 20 (Some Help))))))"
proof -
  let ?as = "stream 1700000000000 (replicate 10 (Some Help))"
  let ?as2 = "stream 1700000000330 (replicate 10 (Some Help))"
  let ?bs = "stream 1700000003000 (replicate 10 (Some Stop))"
  let ?as3 = "stream 1700000006000 (replicate 10 (Some Help))"
  let ?held = "stream 1700000000000 (replicate 20 (Some Help))"
  have held: "?held = ?as @ ?as2" by code_simp
  have h1: "map candidate ?as = replicate 10 (Some Help)" by code_simp
  have h2: "map candidate ?as2 = replicate 10 (Some Help)" by code_simp
  have h4: "lock_candidate lock_init \<noteq> Some Help" "lastSpokenGesture lock_init \<noteq> Some Help"
    by (simp_all add: lock_init_def)
  have h5: "2500 \<le> nowMs (last ?as) - lastSpokenTime lock_init" by code_simp
  have b: "Help \<noteq> Stop \<and> map candidate ?bs = replicate 10 (Some Stop)
            \<and> map candidate ?as3 = replicate 10 (Some Help)
            \<and> nowMs (last ?as) \<le> speakMs (last ?as)
            \<and> 2500 \<le> nowMs (last ?bs) - speakMs (last ?as)
            \<and> nowMs (last ?bs) \<le> speakMs (last ?bs)
            \<and> 2500 \<le> nowMs (last ?as3) - speakMs (last ?bs)"
    by code_simp
  note inst = no_repeat_suppression [OF h1 h2 h4 h5, of Stop ?bs ?as3 lock_init "?as @ ?as2"]
  from inst have one: "snd (runFrames lock_init (?as @ ?as2)) = [(''Help'', Help)]"
    by (simp only: GESTURE_PHRASE.simps)
  from inst b have two: "snd (runFrames lock_init (?as @ ?bs @ ?as3))
      = [(''Help'', Help), (''Please stop'', Stop), (''Help'', Help)]"
    by (simp only: GESTURE_PHRASE.simps simp_thms)
  from inst have three: "distinct_adj (lastSpokenGesture lock_init # map (\<lambda>e. Some (snd e))
      (snd (runFrames lock_init (?as @ ?as2))))"
    by (rule conjunct2 [THEN conjunct2])
  from one two three show ?thesis
    unfolding held by (intro conjI)
qed

subsection \<open>The effect of a lock event\<close>

text \<open>
  Claim C5, as stated, says that every lock emission sets the lock time to the current
  time. The time is recorded by \<^verbatim>\<open>speak\<close>, behind its own 3-second guard, while the lock
  is emitted from 2500 ms on: a lock emitted 2600 ms after the recorded time leaves
  that time as it was.
\<close>

theorem lock_effect_counterexample:
  "snd (lockStep \<lparr>lock_candidate = Some Help, lock_streak = 9,
                  lastSpokenGesture = Some Yes, lastSpokenTime = 1700000000000\<rparr>
                \<lparr>candidate = Some Help, nowMs = 1700000002600, speakMs = 1700000002600\<rparr>)
     = Some (''Help'', Help)
   \<and> lastSpokenTime (fst (lockStep \<lparr>lock_candidate = Some Help, lock_streak = 9,
                  lastSpokenGesture = Some Yes, lastSpokenTime = 1700000000000\<rparr>
                \<lparr>candidate = Some Help, nowMs = 1700000002600, speakMs = 1700000002600\<rparr>))
     = 1700000000000"
  by (simp add: lockStep_def updateStreak_def speak_def LOCK_FRAMES_def)

text \<open>
  Claim C5, amended: on every lock emission the emitted event is the pair (phrase,
  gesture) that \<open>GESTURE_PHRASE\<close> gives for the frame's candidate, and the last locked
  gesture is set to that candidate; the recorded time is set to the current time when at
  least 3000 ms have passed since it, and is left unchanged otherwise (between 2500 and
  3000 ms).
\<close>

theorem lock_effect:
  assumes "snd (lockStep st fr) = Some ev"
  shows "\<exists>g. candidate fr = Some g \<and> ev = (GESTURE_PHRASE g, g)
           \<and> lastSpokenGesture (fst (lockStep st fr)) = Some g
           \<and> lastSpokenTime (fst (lockStep st fr)) =
               (if speakMs fr - lastSpokenTime st < 3000 then lastSpokenTime st else speakMs fr)"
  using assms
  by (cases "candidate fr")
     (auto simp: lockStep_def updateStreak_Some Let_def lockStep_None speak_def split: if_splits)

theorem lock_effect_witness:
  "\<exists>g. candidate \<lparr>candidate = Some Help, nowMs = 1700000003000, speakMs = 1700000003001\<rparr> = Some g
      \<and> (''Help'', Help) = (GESTURE_PHRASE g, g)
      \<and> lastSpokenGesture (fst (lockStep
            \<lparr>lock_candidate = Some Help, lock_streak = 9,
              lastSpokenGesture = Some Yes, lastSpokenTime = 1700000000000\<rparr>
            \<lparr>candidate = Some Help, nowMs = 1700000003000, speakMs = 1700000003001\<rparr>)) = Some g
      \<and> lastSpokenTime (fst (lockStep
            \<lparr>lock_candidate = Some Help, lock_streak = 9,
              lastSpokenGesture = Some Yes, lastSpokenTime = 1700000000000\<rparr>
            \<lparr>candidate = Some Help, nowMs = 1700000003000, speakMs = 1700000003001\<rparr>))
          = 1700000003001"
proof -
  have h: "snd (lockStep
            \<lparr>lock_candidate = Some Help, lock_streak = 9,
              lastSpokenGesture = Some Yes, lastSpokenTime = 1700000000000\<rparr>
            \<lparr>candidate = Some Help, nowMs = 1700000003000, speakMs = 1700000003001\<rparr>)
           = Some (''Help'', Help)"
    by (simp add: lockStep_def updateStreak_def speak_def LOCK_FRAMES_def)
  show ?thesis
    using lock_effect [OF h] by simp
qed

section \<open>Properties of the classifier\<close>

subsection \<open>Finger predicates\<close>

lemma margins_exclusive:
  fixes h :: real
  assumes "0 \<le> h" and "dt > dp + 0.16 * h" and "dt + 0.128 * h < dp"
  shows False
  using assms by simp

lemma extended_not_curled:
  assumes "isFingerExtended lms m p t hs"
  shows "\<not> isFingerCurled lms m p t hs"
proof
  assume cur: "isFingerCurled lms m p t hs"
  from assms obtain w a b c where pts: "fingerPoints lms m p t = Some (w, a, b, c)"
    by (auto simp: isFingerExtended_def split: option.splits)
  have "dist2 c w > dist2 b w + 0.16 * (max hs 0.0001)\<^sup>2"
    using assms pts by (simp add: isFingerExtended_def Let_def)
  moreover have "dist2 c w + 0.128 * (max hs 0.0001)\<^sup>2 < dist2 b w"
    using cur pts by (simp add: isFingerCurled_def Let_def)
  moreover have "0 \<le> (max hs (0.0001::real))\<^sup>2" by simp
  ultimately show False by (rule margins_exclusive [rotated])
qed

lemma fingerPoints_None_iff:
  "fingerPoints lms m p t = None \<longleftrightarrow>
     lm_at lms 0 = None \<or> lm_at lms m = None \<or> lm_at lms p = None \<or> lm_at lms t = None"
  by (auto simp: fingerPoints_def split: option.splits)

lemma classifyPoints_None_iff:
  "classifyPoints lms = None \<longleftrightarrow>
     lm_at lms 0 = None \<or> lm_at lms 4 = None \<or> lm_at lms 2 = None"
  by (auto simp: classifyPoints_def split: option.splits)

lemma thumb_classifyPoints:
  "thumb lms hs \<Longrightarrow> \<exists>w t m. classifyPoints lms = Some (w, t, m)"
  by (auto simp: thumb_def isThumbExtended_def fingerPoints_def classifyPoints_def
      split: option.splits)

lemma assistance_not_palmFour: "assistanceShape lms hs \<Longrightarrow> \<not> palmFour lms hs"
  using extended_not_curled [of lms 9 10 12 hs]
  by (auto simp: assistanceShape_def palmFour_def middle_def middleCurled_def)

subsection \<open>Evaluating the sample hands\<close>

lemma dist_lm_vertical: "lm_x a = lm_x b \<Longrightarrow> dist_lm a b = \<bar>lm_y a - lm_y b\<bar>"
  by (simp add: dist_lm_def dist2_def Let_def)

lemma dist_lm_horizontal: "lm_y a = lm_y b \<Longrightarrow> dist_lm a b = \<bar>lm_x a - lm_x b\<bar>"
  by (simp add: dist_lm_def dist2_def Let_def)

lemma hand_ily_size: "getHandSize hand_ily = 0.2"
  by (simp add: getHandSize_def lm_at_def hand_ily_def pt_def dist_lm_vertical)

lemma hand_ily_scale: "scaleRef hand_ily 0 = 0.2"
  by (simp add: scaleRef_def hand_ily_size)

lemmas shape_defs = thumb_def index_def middle_def ring_def pinky_def
  indexCurled_def middleCurled_def ringCurled_def pinkyCurled_def
  isThumbExtended_def isFingerExtended_def isFingerCurled_def fingerPoints_def
  lm_at_def pt_def dist2_def Let_def power2_eq_square

lemma hand_ily_shape: "assistanceShape hand_ily 0.2"
  by (simp add: assistanceShape_def shape_defs hand_ily_def)

lemma fistAt_wrist: "lm_at (fistAt x y) 0 = pt x y"
  by (simp add: lm_at_def fistAt_def)

lemma fistAt_size: "getHandSize (fistAt x y) = 0.2"
  by (simp add: getHandSize_def lm_at_def fistAt_def pt_def dist_lm_vertical)

lemma fist_fingers:
  "\<not> thumb (fistAt x y) 0.2"
  "\<not> index (fistAt x y) 0.2" "\<not> middle (fistAt x y) 0.2"
  "\<not> ring (fistAt x y) 0.2" "\<not> pinky (fistAt x y) 0.2"
  "indexCurled (fistAt x y) 0.2" "middleCurled (fistAt x y) 0.2"
  "ringCurled (fistAt x y) 0.2" "pinkyCurled (fistAt x y) 0.2"
  by (simp_all add: shape_defs fistAt_def)

lemma fist_points:
  "\<exists>w tt tm. classifyPoints (fistAt x y) = Some (w, tt, tm)"
  by (simp add: classifyPoints_def lm_at_def fistAt_def pt_def)

lemma fistAt_Yes:
  "fst (classifyGesture 0 nowW nowS tr (fistAt x y)) = Some Yes"
proof -
  have sr: "scaleRef (fistAt x y) 0 = 0.2"
    by (simp add: scaleRef_def fistAt_size)
  obtain w tt tm where cp: "classifyPoints (fistAt x y) = Some (w, tt, tm)"
    using fist_points by blast
  show ?thesis
    unfolding classifyGesture_def cp sr
    using fist_fingers [of x y]
    by (simp add: palmFour_def openHand_def fourFingers_def shapeRules_def waterShape_def
      assistanceShape_def fist_def)
qed

subsection \<open>Scaling a hand about its wrist\<close>

lemma scaleAbout_self: "scaleAbout w f w = w"
  by (cases w) (auto simp: scaleAbout_def split: option.splits)

lemma scaleAbout_xy [simp]:
  "lm_x (scaleAbout w f p) = lm_x w + f * (lm_x p - lm_x w)"
  "lm_y (scaleAbout w f p) = lm_y w + f * (lm_y p - lm_y w)"
  by (simp_all add: scaleAbout_def)

lemma dist2_scale: "dist2 (scaleAbout w f a) (scaleAbout w f b) = f\<^sup>2 * dist2 a b"
  by (simp add: dist2_def Let_def power2_eq_square algebra_simps)

lemma dist2_scale_wrist: "dist2 (scaleAbout w f a) w = f\<^sup>2 * dist2 a w"
  using dist2_scale [of w f a w] by (simp add: scaleAbout_self)

lemma dist_lm_scale: "0 \<le> f \<Longrightarrow> dist_lm (scaleAbout w f a) (scaleAbout w f b) = f * dist_lm a b"
  by (simp add: dist_lm_def dist2_scale real_sqrt_mult)

lemma scaleLandmarks_no_wrist: "lm_at lms 0 = None \<Longrightarrow> scaleLandmarks f lms = lms"
  by (simp add: scaleLandmarks_def)

lemma lm_at_scale:
  "lm_at lms 0 = Some w \<Longrightarrow> lm_at (scaleLandmarks f lms) i = map_option (scaleAbout w f) (lm_at lms i)"
  by (simp add: scaleLandmarks_def lm_at_def)

lemma getHandSize_scale: "0 \<le> f \<Longrightarrow> getHandSize (scaleLandmarks f lms) = f * getHandSize lms"
proof (cases "lm_at lms 0")
  case None
  then show ?thesis by (simp add: scaleLandmarks_no_wrist getHandSize_def)
next
  case (Some w)
  assume "0 \<le> f"
  then show ?thesis
    using Some dist_lm_scale [of f w w]
    by (auto simp: getHandSize_def lm_at_scale scaleAbout_self split: option.splits)
qed

lemma fingerPoints_scale:
  "lm_at lms 0 = Some w \<Longrightarrow>
   fingerPoints (scaleLandmarks f lms) m p t =
     map_option (\<lambda>(w', a, b, c). (w', scaleAbout w f a, scaleAbout w f b, scaleAbout w f c))
       (fingerPoints lms m p t)"
  by (auto simp: fingerPoints_def lm_at_scale scaleAbout_self split: option.splits)

lemma fingerPoints_wrist:
  "fingerPoints lms m p t = Some (w, a, b, c) \<Longrightarrow> lm_at lms 0 = Some w"
  by (auto simp: fingerPoints_def split: option.splits)

lemma scaled_margin:
  fixes f :: real
  assumes "0 < f"
  shows "f\<^sup>2 * x + n * (f * hs)\<^sup>2 / d < f\<^sup>2 * y \<longleftrightarrow> x + n * hs\<^sup>2 / d < y"
proof -
  have "f\<^sup>2 * x + n * (f * hs)\<^sup>2 / d = f\<^sup>2 * (x + n * hs\<^sup>2 / d)"
    by (simp add: power_mult_distrib algebra_simps)
  moreover have "0 < f\<^sup>2" using assms by simp
  ultimately show ?thesis by (simp add: mult_less_cancel_left_pos)
qed

lemma floor_inactive:
  fixes hs :: real
  assumes "0.0001 \<le> hs"
  shows "max hs (1 / 10000) = hs"
  using assms by (simp add: max_def)

lemma isFingerExtended_scale:
  assumes "0 < f" and "0.0001 \<le> hs" and "0.0001 \<le> f * hs"
  shows "isFingerExtended (scaleLandmarks f lms) m p t (f * hs) = isFingerExtended lms m p t hs"
proof (cases "fingerPoints lms m p t")
  case None
  show ?thesis
  proof (cases "lm_at lms 0")
    case None
    then show ?thesis by (simp add: scaleLandmarks_no_wrist isFingerExtended_def fingerPoints_def)
  next
    case (Some w)
    then show ?thesis using None by (simp add: isFingerExtended_def fingerPoints_scale)
  qed
next
  case (Some q)
  obtain w a b c where q: "q = (w, a, b, c)" by (cases q) auto
  have w: "lm_at lms 0 = Some w" using Some q fingerPoints_wrist by blast
  have m: "max hs (1 / 10000) = hs" "max (f * hs) (1 / 10000) = f * hs"
    using assms(2,3) by (simp_all add: floor_inactive)
  show ?thesis
    using Some q assms(1)
    by (simp add: isFingerExtended_def fingerPoints_scale [OF w] Let_def m
        dist2_scale_wrist scaled_margin)
qed

lemma isFingerCurled_scale:
  assumes "0 < f" and "0.0001 \<le> hs" and "0.0001 \<le> f * hs"
  shows "isFingerCurled (scaleLandmarks f lms) m p t (f * hs) = isFingerCurled lms m p t hs"
proof (cases "fingerPoints lms m p t")
  case None
  show ?thesis
  proof (cases "lm_at lms 0")
    case None
    then show ?thesis by (simp add: scaleLandmarks_no_wrist isFingerCurled_def fingerPoints_def)
  next
    case (Some w)
    then show ?thesis using None by (simp add: isFingerCurled_def fingerPoints_scale)
  qed
next
  case (Some q)
  obtain w a b c where q: "q = (w, a, b, c)" by (cases q) auto
  have w: "lm_at lms 0 = Some w" using Some q fingerPoints_wrist by blast
  have m: "max hs (1 / 10000) = hs" "max (f * hs) (1 / 10000) = f * hs"
    using assms(2,3) by (simp_all add: floor_inactive)
  show ?thesis
    using Some q assms(1)
    by (simp add: isFingerCurled_def fingerPoints_scale [OF w] Let_def m
        dist2_scale_wrist scaled_margin)
qed

lemma isThumbExtended_scale:
  assumes "0 < f" and "0.0001 \<le> hs" and "0.0001 \<le> f * hs"
  shows "isThumbExtended (scaleLandmarks f lms) (f * hs) = isThumbExtended lms hs"
proof (cases "fingerPoints lms 2 3 4")
  case None
  show ?thesis
  proof (cases "lm_at lms 0")
    case None
    then show ?thesis by (simp add: scaleLandmarks_no_wrist isThumbExtended_def fingerPoints_def)
  next
    case (Some w)
    then show ?thesis using None by (simp add: isThumbExtended_def fingerPoints_scale)
  qed
next
  case (Some q)
  obtain w a b c where q: "q = (w, a, b, c)" by (cases q) auto
  have w: "lm_at lms 0 = Some w" using Some q fingerPoints_wrist by blast
  have m: "max hs (1 / 10000) = hs" "max (f * hs) (1 / 10000) = f * hs"
    using assms(2,3) by (simp_all add: floor_inactive)
  show ?thesis
    using Some q assms(1)
    by (simp add: isThumbExtended_def fingerPoints_scale [OF w] Let_def m
        dist2_scale_wrist scaled_margin)
qed


lemma scaled_spread:
  fixes f :: real
  assumes "0 < f"
  shows "n * (f * hs) / d < f * y \<longleftrightarrow> n * hs / d < y"
proof -
  have "n * (f * hs) / d = f * (n * hs / d)" by simp
  then show ?thesis using assms by (simp only: mult_less_cancel_left_pos)
qed

lemma thumbSpreadOk_scale:
  assumes "0 < f" and "lm_at lms 0 = Some w"
  shows "thumbSpreadOk (scaleLandmarks f lms) (f * hs) (scaleAbout w f tt) = thumbSpreadOk lms hs tt"
  using assms
  by (cases "lm_at lms 5")
     (simp_all add: thumbSpreadOk_def lm_at_scale dist_lm_scale scaled_spread)

lemma scaled_down:
  fixes f :: real
  assumes "0 < f"
  shows "max (wy + f * (my - wy)) wy + n * (f * hs) / d < wy + f * (ty - wy)
         \<longleftrightarrow> max my wy + n * hs / d < ty"
proof -
  have mx: "max (wy + f * (my - wy)) wy = wy + f * (max my wy - wy)"
  proof (cases "wy \<le> my")
    case True
    then have "0 \<le> f * (my - wy)" using assms by simp
    then show ?thesis using True by (simp add: max_def)
  next
    case False
    then have "f * (my - wy) < 0" using assms by (simp add: mult_less_0_iff)
    then show ?thesis using False by (simp add: max_def)
  qed
  have "max (wy + f * (my - wy)) wy + n * (f * hs) / d < wy + f * (ty - wy)
        \<longleftrightarrow> f * (max my wy + n * hs / d) < f * ty"
    unfolding mx by (simp add: algebra_simps)
  also have "\<dots> \<longleftrightarrow> max my wy + n * hs / d < ty"
    using assms by (simp only: mult_less_cancel_left_pos)
  finally show ?thesis .
qed

lemma scaleRef_floor: "0.0001 \<le> scaleRef lms b"
  by (simp add: scaleRef_def)

lemmas finger_scale = isFingerExtended_scale isFingerCurled_scale isThumbExtended_scale

lemma shapes_scale:
  assumes "0 < f" and "0.0001 \<le> hs" and "0.0001 \<le> f * hs"
  shows "thumb (scaleLandmarks f lms) (f * hs) = thumb lms hs"
    and "index (scaleLandmarks f lms) (f * hs) = index lms hs"
    and "middle (scaleLandmarks f lms) (f * hs) = middle lms hs"
    and "ring (scaleLandmarks f lms) (f * hs) = ring lms hs"
    and "pinky (scaleLandmarks f lms) (f * hs) = pinky lms hs"
    and "palmFour (scaleLandmarks f lms) (f * hs) = palmFour lms hs"
    and "fist (scaleLandmarks f lms) (f * hs) = fist lms hs"
    and "fourFingers (scaleLandmarks f lms) (f * hs) = fourFingers lms hs"
    and "waterShape (scaleLandmarks f lms) (f * hs) = waterShape lms hs"
    and "assistanceShape (scaleLandmarks f lms) (f * hs) = assistanceShape lms hs"
  by (simp_all only: thumb_def index_def middle_def ring_def pinky_def palmFour_def fist_def
      fourFingers_def waterShape_def assistanceShape_def indexCurled_def middleCurled_def
      ringCurled_def pinkyCurled_def finger_scale [OF assms])

lemma openHand_scale:
  assumes "0 < f" and "0.0001 \<le> hs" and "0.0001 \<le> f * hs" and "lm_at lms 0 = Some w"
  shows "openHand (scaleLandmarks f lms) (f * hs) (scaleAbout w f tt) = openHand lms hs tt"
  by (simp only: openHand_def shapes_scale [OF assms(1-3)] thumbSpreadOk_scale [OF assms(1,4)])

lemma shapeRules_scale:
  assumes "0 < f" and "0.0001 \<le> hs" and "0.0001 \<le> f * hs" and "lm_at lms 0 = Some w"
  shows "shapeRules (scaleLandmarks f lms) (f * hs) w (scaleAbout w f tt) (scaleAbout w f tm)
         = shapeRules lms hs w tt tm"
  by (simp add: shapeRules_def shapes_scale [OF assms(1-3)] openHand_scale [OF assms]
      scaled_down [OF assms(1)])

lemma classifyPoints_scale:
  "lm_at lms 0 = Some w \<Longrightarrow>
   classifyPoints (scaleLandmarks f lms) =
     map_option (\<lambda>(w', t, m). (w', scaleAbout w f t, scaleAbout w f m)) (classifyPoints lms)"
  by (auto simp: classifyPoints_def lm_at_scale scaleAbout_self split: option.splits)

lemma classifyPoints_wrist:
  "classifyPoints lms = Some (w, t, m) \<Longrightarrow> lm_at lms 0 = Some w"
  by (auto simp: classifyPoints_def split: option.splits)

lemma classifyGesture_cases:
  assumes "classifyPoints lms = Some (w, tt, tm)"
  shows "fst (classifyGesture b nowW nowS tr lms) = Some Goodbye
         \<or> fst (classifyGesture b nowW nowS tr lms) = afterWave nowS tr lms (scaleRef lms b) w tt tm"
  using assms
  by (auto simp: classifyGesture_def afterWave_def Let_def split: prod.splits option.splits)

subsection \<open>The waving hand\<close>

lemma hand_four_size: "getHandSize hand_four = 0.2"
  by (simp add: getHandSize_def lm_at_def hand_four_def pt_def dist_lm_vertical)

lemma hand_four_fingers:
  "\<not> thumb hand_four 0.2" "index hand_four 0.2" "middle hand_four 0.2"
  "ring hand_four 0.2" "pinky hand_four 0.2"
  by (simp_all add: shape_defs hand_four_def)

lemma hand_four_points:
  "classifyPoints hand_four = Some (\<lparr>lm_x = 0.5, lm_y = 0.8, lm_z = None\<rparr>,
      \<lparr>lm_x = 0.44, lm_y = 0.7, lm_z = None\<rparr>, \<lparr>lm_x = 0.42, lm_y = 0.72, lm_z = None\<rparr>)"
  by (simp add: classifyPoints_def lm_at_def hand_four_def pt_def)

lemma hand_four_scaleRef: "scaleRef hand_four 0.2 = 0.2"
  by (simp add: scaleRef_def hand_four_size)

lemma hand_four_scaled_scaleRef: "scaleRef (scaleLandmarks 0.5 hand_four) (0.5 * 0.2) = 0.5 * 0.2"
  by (simp add: scaleRef_def getHandSize_scale hand_four_size)

lemma hand_four_scaled_fingers:
  "\<not> thumb (scaleLandmarks 0.5 hand_four) (0.5 * 0.2)"
  "palmFour (scaleLandmarks 0.5 hand_four) (0.5 * 0.2)"
proof -
  have h: "(0::real) < 0.5" "(0.0001::real) \<le> 0.2" "(0.0001::real) \<le> 0.5 * 0.2" by simp_all
  show "\<not> thumb (scaleLandmarks 0.5 hand_four) (0.5 * 0.2)"
    unfolding shapes_scale(1) [OF h] by (rule hand_four_fingers)
  show "palmFour (scaleLandmarks 0.5 hand_four) (0.5 * 0.2)"
    unfolding shapes_scale(6) [OF h] using hand_four_fingers by (simp add: palmFour_def)
qed

lemma hand_four_scaled_points:
  "\<exists>tt tm. classifyPoints (scaleLandmarks 0.5 hand_four)
      = Some (\<lparr>lm_x = 0.5, lm_y = 0.8, lm_z = None\<rparr>, tt, tm)"
proof -
  have "lm_at hand_four 0 = Some \<lparr>lm_x = 0.5, lm_y = 0.8, lm_z = None\<rparr>"
    by (simp add: lm_at_def hand_four_def pt_def)
  from classifyPoints_scale [OF this, of "0.5"] show ?thesis
    by (simp add: hand_four_points)
qed

lemma classifyGesture_wave:
  assumes "classifyPoints lms = Some (w, tt, tm)"
    and "palmFour lms (scaleRef lms b)"
    and "fst (waveStep (scaleRef lms b) nowW (lm_x w) (waveRef tr))"
  shows "fst (classifyGesture b nowW nowS tr lms) = Some Goodbye"
proof -
  obtain s where "waveStep (scaleRef lms b) nowW (lm_x w) (waveRef tr) = (True, s)"
    using assms(3) by (cases "waveStep (scaleRef lms b) nowW (lm_x w) (waveRef tr)") auto
  then show ?thesis
    using assms(1,2) by (simp add: classifyGesture_def Let_def)
qed

lemma classifyGesture_no_wave:
  assumes "classifyPoints lms = Some (w, tt, tm)"
    and "\<not> fst (waveStep (scaleRef lms b) nowW (lm_x w) (waveRef tr))"
  shows "fst (classifyGesture b nowW nowS tr lms) = afterWave nowS tr lms (scaleRef lms b) w tt tm"
  using assms
  by (auto simp: classifyGesture_def afterWave_def Let_def split: prod.splits option.splits)

lemma afterWave_thank_you:
  assumes "fst (stillStep nowS w (stillRef tr)) = None"
    and "\<not> thumb lms hs" and "palmFour lms hs"
  shows "afterWave nowS tr lms hs w tt tm = Some Thank_you"
  using assms
  by (simp add: afterWave_def shapeRules_def waterShape_def assistanceShape_def
      fourFingers_def palmFour_def)

subsection \<open>Where \<open>Goodbye\<close> can come from\<close>

lemma stillStep_not_goodbye: "fst (stillStep now w st) \<noteq> Some Goodbye"
  by (simp add: stillStep_def Let_def)

lemma shapeRules_not_goodbye: "shapeRules lms hs w tt tm \<noteq> Some Goodbye"
  by (simp add: shapeRules_def Let_def)

lemma not_palmFour_not_goodbye:
  assumes "\<not> palmFour lms (scaleRef lms b)"
  shows "fst (classifyGesture b nowW nowS tr lms) \<noteq> Some Goodbye"
proof (cases "classifyPoints lms")
  case None
  then show ?thesis by (simp add: classifyGesture_def)
next
  case (Some q)
  obtain w tt tm where q: "q = (w, tt, tm)" by (cases q) auto
  show ?thesis
    using Some q assms stillStep_not_goodbye [of nowS w "stillRef tr"]
      shapeRules_not_goodbye [of lms "scaleRef lms b" w tt tm]
    by (auto simp: classifyGesture_def Let_def split: prod.splits option.splits)
qed

subsection \<open>Scaling up to an error, for hands clear of the thresholds\<close>

lemma isFingerExtended_above:
  "isFingerExtended lms m p t hs \<longleftrightarrow>
     (\<exists>w a b c. fingerPoints lms m p t = Some (w, a, b, c)
        \<and> above 0.16 (dist2 c w) (dist2 b w) (max hs 0.0001)
        \<and> above 0.08 (dist2 b w) (dist2 a w) (max hs 0.0001))"
  by (auto simp: isFingerExtended_def above_def Let_def split: option.splits)

lemma isFingerCurled_above:
  "isFingerCurled lms m p t hs \<longleftrightarrow>
     (\<exists>w a b c. fingerPoints lms m p t = Some (w, a, b, c)
        \<and> above 0.128 (dist2 b w) (dist2 c w) (max hs 0.0001))"
  by (auto simp: isFingerCurled_def above_def Let_def split: option.splits)

lemma isThumbExtended_above:
  "isThumbExtended lms hs \<longleftrightarrow>
     (\<exists>w a b c. fingerPoints lms 2 3 4 = Some (w, a, b, c)
        \<and> above 0.128 (dist2 c w) (dist2 b w) (max hs 0.0001)
        \<and> above 0.064 (dist2 b w) (dist2 a w) (max hs 0.0001))"
  by (auto simp: isThumbExtended_def above_def Let_def split: option.splits)

lemma above_stable:
  fixes g k \<delta> e :: real
  assumes g: "1 / 4 \<le> g" and k: "0 \<le> k" "k \<le> 1"
    and m: "\<delta> < sq_margin k xu yu hu"
    and ex: "\<bar>x2 - g * xu\<bar> \<le> e" and ey: "\<bar>y2 - g * yu\<bar> \<le> e"
    and eh: "\<bar>h2\<^sup>2 - g * hu\<^sup>2\<bar> \<le> e"
    and small: "12 * e \<le> \<delta>"
  shows "above k x2 y2 h2 = above k xu yu hu"
proof -
  define Qu where "Qu = xu - (yu + k * hu\<^sup>2)"
  define Q2 where "Q2 = x2 - (y2 + k * h2\<^sup>2)"
  have e0: "0 \<le> e" using ex by linarith
  have keh: "\<bar>k * (h2\<^sup>2 - g * hu\<^sup>2)\<bar> \<le> e"
  proof -
    have "\<bar>k * (h2\<^sup>2 - g * hu\<^sup>2)\<bar> = k * \<bar>h2\<^sup>2 - g * hu\<^sup>2\<bar>"
      using k(1) by (simp add: abs_mult)
    also have "\<dots> \<le> 1 * e"
      using k eh e0 by (intro mult_mono) auto
    finally show ?thesis by simp
  qed
  have "Q2 - g * Qu = (x2 - g * xu) - (y2 - g * yu) - k * (h2\<^sup>2 - g * hu\<^sup>2)"
    by (simp add: Q2_def Qu_def algebra_simps)
  then have diff: "\<bar>Q2 - g * Qu\<bar> \<le> 3 * e"
    using ex ey keh by linarith
  have mq: "\<delta> < \<bar>Qu\<bar>" using m by (simp add: sq_margin_def Qu_def)
  have d0: "0 \<le> \<delta>" using small e0 by linarith
  have "(0 < Q2) = (0 < Qu)"
  proof (cases "0 < Qu")
    case True
    then have "\<delta> < Qu" using mq by linarith
    moreover have "(1 / 4) * Qu \<le> g * Qu"
      using g True by (intro mult_right_mono) auto
    ultimately have "\<delta> / 4 < g * Qu" by linarith
    then have "0 < Q2" using diff small e0 by linarith
    then show ?thesis using True by simp
  next
    case False
    then have neg: "Qu < - \<delta>" using mq by linarith
    then have "Qu \<le> 0" using d0 by linarith
    then have "g * Qu \<le> (1 / 4) * Qu"
      using g by (intro mult_right_mono_neg) auto
    then have "g * Qu < - (\<delta> / 4)" using neg by linarith
    then have "\<not> 0 < Q2" using diff small e0 by linarith
    then show ?thesis using False by simp
  qed
  then show ?thesis
    by (simp add: above_def Q2_def Qu_def)
qed

lemma lin_stable:
  fixes f k \<delta> e :: real
  assumes f: "1 / 2 \<le> f" and k: "0 \<le> k" "k \<le> 1"
    and m: "\<delta> < \<bar>xu - (yu + k * hu)\<bar>"
    and exy: "\<bar>(x2 - y2) - f * (xu - yu)\<bar> \<le> e"
    and eh: "\<bar>h2 - f * hu\<bar> \<le> e"
    and small: "6 * e \<le> \<delta>"
  shows "(y2 + k * h2 < x2) = (yu + k * hu < xu)"
proof -
  define Qu where "Qu = xu - (yu + k * hu)"
  define Q2 where "Q2 = x2 - (y2 + k * h2)"
  have e0: "0 \<le> e" using eh by linarith
  have keh: "\<bar>k * (h2 - f * hu)\<bar> \<le> e"
  proof -
    have "\<bar>k * (h2 - f * hu)\<bar> = k * \<bar>h2 - f * hu\<bar>"
      using k(1) by (simp add: abs_mult)
    also have "\<dots> \<le> 1 * e"
      using k eh e0 by (intro mult_mono) auto
    finally show ?thesis by simp
  qed
  have "Q2 - f * Qu = ((x2 - y2) - f * (xu - yu)) - k * (h2 - f * hu)"
    by (simp add: Q2_def Qu_def algebra_simps)
  then have diff: "\<bar>Q2 - f * Qu\<bar> \<le> 2 * e"
    using exy keh by linarith
  have mq: "\<delta> < \<bar>Qu\<bar>" using m by (simp add: Qu_def)
  have d0: "0 \<le> \<delta>" using small e0 by linarith
  have "(0 < Q2) = (0 < Qu)"
  proof (cases "0 < Qu")
    case True
    then have "\<delta> < Qu" using mq by linarith
    moreover have "(1 / 2) * Qu \<le> f * Qu"
      using f True by (intro mult_right_mono) auto
    ultimately have "\<delta> / 2 < f * Qu" by linarith
    then have "0 < Q2" using diff small e0 by linarith
    then show ?thesis using True by simp
  next
    case False
    then have neg: "Qu < - \<delta>" using mq by linarith
    then have "Qu \<le> 0" using d0 by linarith
    then have "f * Qu \<le> (1 / 2) * Qu"
      using f by (intro mult_right_mono_neg) auto
    then have "f * Qu < - (\<delta> / 2)" using neg by linarith
    then have "\<not> 0 < Q2" using diff small e0 by linarith
    then show ?thesis using False by simp
  qed
  then show ?thesis
    by (simp add: Q2_def Qu_def)
qed

lemma above_margin:
  fixes g k \<delta> e :: real
  assumes g: "1 / 4 \<le> g" and k: "0 \<le> k" "k \<le> 1"
    and m: "\<delta> < sq_margin k xu yu hu"
    and ex: "\<bar>x2 - g * xu\<bar> \<le> e" and ey: "\<bar>y2 - g * yu\<bar> \<le> e"
    and eh: "\<bar>h2\<^sup>2 - g * hu\<^sup>2\<bar> \<le> e"
  shows "\<delta> / 4 - 3 * e < sq_margin k x2 y2 h2"
proof -
  define Qu where "Qu = xu - (yu + k * hu\<^sup>2)"
  define Q2 where "Q2 = x2 - (y2 + k * h2\<^sup>2)"
  have e0: "0 \<le> e" using ex by linarith
  have keh: "\<bar>k * (h2\<^sup>2 - g * hu\<^sup>2)\<bar> \<le> e"
  proof -
    have "\<bar>k * (h2\<^sup>2 - g * hu\<^sup>2)\<bar> = k * \<bar>h2\<^sup>2 - g * hu\<^sup>2\<bar>"
      using k(1) by (simp add: abs_mult)
    also have "\<dots> \<le> 1 * e"
      using k eh e0 by (intro mult_mono) auto
    finally show ?thesis by simp
  qed
  have "Q2 - g * Qu = (x2 - g * xu) - (y2 - g * yu) - k * (h2\<^sup>2 - g * hu\<^sup>2)"
    by (simp add: Q2_def Qu_def algebra_simps)
  then have diff: "\<bar>Q2 - g * Qu\<bar> \<le> 3 * e"
    using ex ey keh by linarith
  have mq: "\<delta> < \<bar>Qu\<bar>" using m by (simp add: sq_margin_def Qu_def)
  have "(1 / 4) * \<bar>Qu\<bar> \<le> g * \<bar>Qu\<bar>"
    using g by (intro mult_right_mono) auto
  moreover have "\<bar>g * Qu\<bar> = g * \<bar>Qu\<bar>"
    using g by (simp add: abs_mult)
  ultimately have "\<delta> / 4 < \<bar>g * Qu\<bar>" using mq by linarith
  then have "\<delta> / 4 - 3 * e < \<bar>Q2\<bar>" using diff by linarith
  then show ?thesis by (simp add: sq_margin_def Q2_def)
qed

lemma lin_margin:
  fixes f k \<delta> e :: real
  assumes f: "1 / 2 \<le> f" and k: "0 \<le> k" "k \<le> 1"
    and m: "\<delta> < \<bar>xu - (yu + k * hu)\<bar>"
    and exy: "\<bar>(x2 - y2) - f * (xu - yu)\<bar> \<le> e"
    and eh: "\<bar>h2 - f * hu\<bar> \<le> e"
  shows "\<delta> / 2 - 2 * e < \<bar>x2 - (y2 + k * h2)\<bar>"
proof -
  define Qu where "Qu = xu - (yu + k * hu)"
  define Q2 where "Q2 = x2 - (y2 + k * h2)"
  have e0: "0 \<le> e" using eh by linarith
  have keh: "\<bar>k * (h2 - f * hu)\<bar> \<le> e"
  proof -
    have "\<bar>k * (h2 - f * hu)\<bar> = k * \<bar>h2 - f * hu\<bar>"
      using k(1) by (simp add: abs_mult)
    also have "\<dots> \<le> 1 * e"
      using k eh e0 by (intro mult_mono) auto
    finally show ?thesis by simp
  qed
  have "Q2 - f * Qu = ((x2 - y2) - f * (xu - yu)) - k * (h2 - f * hu)"
    by (simp add: Q2_def Qu_def algebra_simps)
  then have diff: "\<bar>Q2 - f * Qu\<bar> \<le> 2 * e"
    using exy keh by linarith
  have mq: "\<delta> < \<bar>Qu\<bar>" using m by (simp add: Qu_def)
  have "(1 / 2) * \<bar>Qu\<bar> \<le> f * \<bar>Qu\<bar>"
    using f by (intro mult_right_mono) auto
  moreover have "\<bar>f * Qu\<bar> = f * \<bar>Qu\<bar>"
    using f by (simp add: abs_mult)
  ultimately have "\<delta> / 2 < \<bar>f * Qu\<bar>" using mq by linarith
  then have "\<delta> / 2 - 2 * e < \<bar>Q2\<bar>" using diff by linarith
  then show ?thesis by (simp add: Q2_def)
qed

lemma near_lm_at:
  assumes "near \<eta> xs ys"
  shows "rel_option (\<lambda>p q. \<bar>lm_x q - lm_x p\<bar> \<le> \<eta> \<and> \<bar>lm_y q - lm_y p\<bar> \<le> \<eta>) (lm_at xs i) (lm_at ys i)"
  using assms by (auto simp: near_def lm_at_def list_all2_conv_all_nth)

lemma inFrame_lm_at:
  assumes "inFrame lms" and "lm_at lms i = Some p"
  shows "0 \<le> lm_x p \<and> lm_x p \<le> 1 \<and> 0 \<le> lm_y p \<and> lm_y p \<le> 1"
proof -
  have i: "i < length lms" and p: "lms ! i = Some p"
    using assms(2) by (auto simp: lm_at_def split: if_splits)
  from assms(1) i have "case lms ! i of None \<Rightarrow> True
      | Some q \<Rightarrow> 0 \<le> lm_x q \<and> lm_x q \<le> 1 \<and> 0 \<le> lm_y q \<and> lm_y q \<le> 1"
    by (simp add: inFrame_def list_all_length)
  then show ?thesis using p by simp
qed

lemma scaledNear_none:
  assumes "scaledNear f \<eta> lms hs lms2 hs2" and "lm_at lms i = None"
  shows "lm_at lms2 i = None"
proof -
  have n: "near \<eta> (scaleLandmarks f lms) lms2" using assms(1) by (simp add: scaledNear_def)
  have "lm_at (scaleLandmarks f lms) i = None"
  proof (cases "lm_at lms 0")
    case None
    then show ?thesis using assms(2) by (simp add: scaleLandmarks_no_wrist)
  next
    case (Some w)
    then show ?thesis using assms(2) by (simp add: lm_at_scale)
  qed
  then show ?thesis using near_lm_at [OF n, of i] by (cases "lm_at lms2 i") auto
qed

lemma scaledNear_point:
  assumes "scaledNear f \<eta> lms hs lms2 hs2" and "lm_at lms 0 = Some w" and "lm_at lms i = Some a"
  shows "\<exists>a2. lm_at lms2 i = Some a2
           \<and> \<bar>lm_x a2 - lm_x (scaleAbout w f a)\<bar> \<le> \<eta>
           \<and> \<bar>lm_y a2 - lm_y (scaleAbout w f a)\<bar> \<le> \<eta>
           \<and> \<bar>lm_x a - lm_x w\<bar> \<le> 1 \<and> \<bar>lm_y a - lm_y w\<bar> \<le> 1"
proof -
  have n: "near \<eta> (scaleLandmarks f lms) lms2" and fr: "inFrame lms"
    using assms(1) by (simp_all add: scaledNear_def)
  have s: "lm_at (scaleLandmarks f lms) i = Some (scaleAbout w f a)"
    using assms(2,3) by (simp add: lm_at_scale)
  obtain a2 where a2: "lm_at lms2 i = Some a2"
      "\<bar>lm_x a2 - lm_x (scaleAbout w f a)\<bar> \<le> \<eta>" "\<bar>lm_y a2 - lm_y (scaleAbout w f a)\<bar> \<le> \<eta>"
    using near_lm_at [OF n, of i] s by (cases "lm_at lms2 i") auto
  have "\<bar>lm_x a - lm_x w\<bar> \<le> 1 \<and> \<bar>lm_y a - lm_y w\<bar> \<le> 1"
    using inFrame_lm_at [OF fr assms(2)] inFrame_lm_at [OF fr assms(3)] by auto
  then show ?thesis using a2 by blast
qed

lemma sq_diff_bound:
  fixes u e \<eta> :: real
  assumes "\<bar>u\<bar> \<le> 2" and "\<bar>e\<bar> \<le> \<eta>" and "\<eta> \<le> 1"
  shows "\<bar>(u + e)\<^sup>2 - u\<^sup>2\<bar> \<le> 5 * \<eta>"
proof -
  have "(u + e)\<^sup>2 - u\<^sup>2 = e * (2 * u + e)" by (simp add: power2_eq_square algebra_simps)
  then have "\<bar>(u + e)\<^sup>2 - u\<^sup>2\<bar> = \<bar>e\<bar> * \<bar>2 * u + e\<bar>" by (simp add: abs_mult)
  also have "\<dots> \<le> \<eta> * 5"
    using assms by (intro mult_mono) auto
  finally show ?thesis by simp
qed

lemma dist2_near_scaled:
  assumes f: "1 / 2 \<le> f" "f \<le> 2" and eta: "\<eta> \<le> 1"
    and bx: "\<bar>lm_x a - lm_x w\<bar> \<le> 1" and by': "\<bar>lm_y a - lm_y w\<bar> \<le> 1"
    and nx: "\<bar>lm_x a2 - lm_x (scaleAbout w f a)\<bar> \<le> \<eta>"
    and ny: "\<bar>lm_y a2 - lm_y (scaleAbout w f a)\<bar> \<le> \<eta>"
  shows "\<bar>dist2 a2 w - f\<^sup>2 * dist2 a w\<bar> \<le> 10 * \<eta>"
proof -
  define ux where "ux = f * (lm_x a - lm_x w)"
  define uy where "uy = f * (lm_y a - lm_y w)"
  define ex where "ex = lm_x a2 - lm_x (scaleAbout w f a)"
  define ey where "ey = lm_y a2 - lm_y (scaleAbout w f a)"
  have f0: "0 \<le> f" using f(1) by linarith
  have "\<bar>ux\<bar> = f * \<bar>lm_x a - lm_x w\<bar>" using f0 by (simp add: ux_def abs_mult)
  also have "\<dots> \<le> 2 * 1" using f bx f0 by (intro mult_mono) auto
  finally have ux: "\<bar>ux\<bar> \<le> 2" by simp
  have "\<bar>uy\<bar> = f * \<bar>lm_y a - lm_y w\<bar>" using f0 by (simp add: uy_def abs_mult)
  also have "\<dots> \<le> 2 * 1" using f by' f0 by (intro mult_mono) auto
  finally have uy: "\<bar>uy\<bar> \<le> 2" by simp
  have d2: "dist2 a2 w = (ux + ex)\<^sup>2 + (uy + ey)\<^sup>2"
    by (simp add: dist2_def Let_def ux_def uy_def ex_def ey_def power2_eq_square algebra_simps)
  have ds: "f\<^sup>2 * dist2 a w = ux\<^sup>2 + uy\<^sup>2"
    by (simp add: dist2_def Let_def ux_def uy_def power2_eq_square algebra_simps)
  have "\<bar>(ux + ex)\<^sup>2 - ux\<^sup>2\<bar> \<le> 5 * \<eta>"
    using ux nx eta by (intro sq_diff_bound) (simp_all add: ex_def)
  moreover have "\<bar>(uy + ey)\<^sup>2 - uy\<^sup>2\<bar> \<le> 5 * \<eta>"
    using uy ny eta by (intro sq_diff_bound) (simp_all add: ey_def)
  ultimately show ?thesis unfolding d2 ds by linarith
qed

lemma scale_sq_near:
  fixes f hs hs2 \<eta> :: real
  assumes "1 / 2 \<le> f" "f \<le> 2" "0 \<le> hs" "hs \<le> 2" "0 \<le> hs2" "\<bar>hs2 - f * hs\<bar> \<le> \<eta>" "\<eta> \<le> 1"
  shows "\<bar>hs2\<^sup>2 - f\<^sup>2 * hs\<^sup>2\<bar> \<le> 10 * \<eta>"
proof -
  have f0: "0 \<le> f" using assms(1) by linarith
  have fh: "0 \<le> f * hs" using f0 assms(3) by simp
  have "f * hs \<le> 2 * 2" using assms(2,4,3) f0 by (intro mult_mono) auto
  then have fh4: "f * hs \<le> 4" by simp
  have "hs2\<^sup>2 - f\<^sup>2 * hs\<^sup>2 = (hs2 - f * hs) * (hs2 + f * hs)"
    by (simp add: power2_eq_square algebra_simps)
  then have "\<bar>hs2\<^sup>2 - f\<^sup>2 * hs\<^sup>2\<bar> = \<bar>hs2 - f * hs\<bar> * \<bar>hs2 + f * hs\<bar>"
    by (simp add: abs_mult)
  also have "\<dots> \<le> \<eta> * 10"
    using assms fh fh4 by (intro mult_mono) auto
  finally show ?thesis by simp
qed

lemma fingerPoints_SomeD:
  assumes "fingerPoints lms m p t = Some (w, a, b, c)"
  shows "lm_at lms 0 = Some w" "lm_at lms m = Some a" "lm_at lms p = Some b" "lm_at lms t = Some c"
  using assms by (auto simp: fingerPoints_def split: option.splits)

lemma fingerPoints_SomeI:
  assumes "lm_at lms 0 = Some w" "lm_at lms m = Some a" "lm_at lms p = Some b" "lm_at lms t = Some c"
  shows "fingerPoints lms m p t = Some (w, a, b, c)"
  using assms by (simp add: fingerPoints_def)

lemma scaledNear_fingerPoints_None:
  assumes ctx: "scaledNear f \<eta> lms hs lms2 hs2" and "fingerPoints lms m p t = None"
  shows "fingerPoints lms2 m p t = None"
proof -
  have w: "lm_at lms2 0 = lm_at lms 0" using ctx by (simp add: scaledNear_def)
  from assms(2) have "lm_at lms 0 = None \<or> lm_at lms m = None \<or> lm_at lms p = None \<or> lm_at lms t = None"
    by (simp add: fingerPoints_None_iff)
  then have "lm_at lms2 0 = None \<or> lm_at lms2 m = None \<or> lm_at lms2 p = None \<or> lm_at lms2 t = None"
    using w scaledNear_none [OF ctx] by auto
  then show ?thesis by (simp add: fingerPoints_None_iff)
qed

lemma scaledNear_dist2:
  assumes ctx: "scaledNear f \<eta> lms hs lms2 hs2"
    and w: "lm_at lms 0 = Some w" and a: "lm_at lms i = Some a"
  shows "\<exists>a2. lm_at lms2 i = Some a2 \<and> \<bar>dist2 a2 w - f\<^sup>2 * dist2 a w\<bar> \<le> 10 * \<eta>"
proof -
  obtain a2 where a2: "lm_at lms2 i = Some a2"
      "\<bar>lm_x a2 - lm_x (scaleAbout w f a)\<bar> \<le> \<eta>" "\<bar>lm_y a2 - lm_y (scaleAbout w f a)\<bar> \<le> \<eta>"
      "\<bar>lm_x a - lm_x w\<bar> \<le> 1" "\<bar>lm_y a - lm_y w\<bar> \<le> 1"
    using scaledNear_point [OF ctx w a] by blast
  have f: "1 / 2 \<le> f" "f \<le> 2" and eta: "\<eta> \<le> 1"
    using ctx by (simp_all add: scaledNear_def)
  have "\<bar>dist2 a2 w - f\<^sup>2 * dist2 a w\<bar> \<le> 10 * \<eta>"
    using f eta a2(4,5,2,3) by (rule dist2_near_scaled)
  then show ?thesis using a2(1) by blast
qed

lemma scaledNear_scale:
  assumes ctx: "scaledNear f \<eta> lms hs lms2 hs2"
  shows "max hs 0.0001 = hs" "max hs2 0.0001 = hs2" "\<bar>hs2\<^sup>2 - f\<^sup>2 * hs\<^sup>2\<bar> \<le> 10 * \<eta>"
    "1 / 4 \<le> f\<^sup>2"
proof -
  have h: "1 / 10000 \<le> hs" "hs \<le> 2" "1 / 10000 \<le> hs2" "\<bar>hs2 - f * hs\<bar> \<le> \<eta>"
      "1 / 2 \<le> f" "f \<le> 2" "\<eta> \<le> 1"
    using ctx by (simp_all add: scaledNear_def)
  show "max hs 0.0001 = hs" using h(1) by (simp add: max_def)
  show "max hs2 0.0001 = hs2" using h(3) by (simp add: max_def)
  show "\<bar>hs2\<^sup>2 - f\<^sup>2 * hs\<^sup>2\<bar> \<le> 10 * \<eta>"
    using h by (intro scale_sq_near) auto
  have "(1 / 2)\<^sup>2 \<le> f\<^sup>2" using h(5) by (intro power_mono) auto
  then show "1 / 4 \<le> f\<^sup>2" by (simp add: power2_eq_square)
qed

lemma above_scaledNear:
  assumes ctx: "scaledNear f \<eta> lms hs lms2 hs2" and small: "120 * \<eta> \<le> \<delta>"
    and k: "0 \<le> k" "k \<le> 1"
    and m: "\<delta> < sq_margin k xu yu hs"
    and ex: "\<bar>x2 - f\<^sup>2 * xu\<bar> \<le> 10 * \<eta>" and ey: "\<bar>y2 - f\<^sup>2 * yu\<bar> \<le> 10 * \<eta>"
  shows "above k x2 y2 hs2 = above k xu yu hs"
proof -
  have "12 * (10 * \<eta>) \<le> \<delta>" using small by simp
  with scaledNear_scale(4) [OF ctx] k m ex ey scaledNear_scale(3) [OF ctx]
  show ?thesis by (rule above_stable)
qed

lemma finger_stable:
  assumes ctx: "scaledNear f \<eta> lms hs lms2 hs2" and small: "120 * \<eta> \<le> \<delta>"
    and clear: "fingerClear \<delta> lms m p t hs"
  shows "isFingerExtended lms2 m p t hs2 = isFingerExtended lms m p t hs"
    and "isFingerCurled lms2 m p t hs2 = isFingerCurled lms m p t hs"
proof -
  have both: "isFingerExtended lms2 m p t hs2 = isFingerExtended lms m p t hs
      \<and> isFingerCurled lms2 m p t hs2 = isFingerCurled lms m p t hs"
  proof (cases "fingerPoints lms m p t")
    case None
    have "fingerPoints lms2 m p t = None"
      using ctx None by (rule scaledNear_fingerPoints_None)
    then show ?thesis using None by (simp add: isFingerExtended_def isFingerCurled_def)
  next
    case (Some q)
    obtain w a b c where q: "q = (w, a, b, c)" by (cases q) auto
    have pts: "fingerPoints lms m p t = Some (w, a, b, c)" using Some q by simp
    note d = fingerPoints_SomeD [OF pts]
    obtain a2 where a2: "lm_at lms2 m = Some a2" "\<bar>dist2 a2 w - f\<^sup>2 * dist2 a w\<bar> \<le> 10 * \<eta>"
      using scaledNear_dist2 [OF ctx d(1) d(2)] by blast
    obtain b2 where b2: "lm_at lms2 p = Some b2" "\<bar>dist2 b2 w - f\<^sup>2 * dist2 b w\<bar> \<le> 10 * \<eta>"
      using scaledNear_dist2 [OF ctx d(1) d(3)] by blast
    obtain c2 where c2: "lm_at lms2 t = Some c2" "\<bar>dist2 c2 w - f\<^sup>2 * dist2 c w\<bar> \<le> 10 * \<eta>"
      using scaledNear_dist2 [OF ctx d(1) d(4)] by blast
    have w2: "lm_at lms2 0 = Some w" using ctx d(1) by (simp add: scaledNear_def)
    have pts2: "fingerPoints lms2 m p t = Some (w, a2, b2, c2)"
      using w2 a2(1) b2(1) c2(1) by (rule fingerPoints_SomeI)
    have hm: "max hs 0.0001 = hs" "max hs2 0.0001 = hs2"
      using scaledNear_scale(1,2) [OF ctx] .
    have cl: "\<delta> < sq_margin 0.16 (dist2 c w) (dist2 b w) hs"
        "\<delta> < sq_margin 0.08 (dist2 b w) (dist2 a w) hs"
        "\<delta> < sq_margin 0.128 (dist2 b w) (dist2 c w) hs"
      using clear unfolding fingerClear_def pts hm by (simp_all add: Let_def)
    have k: "(0::real) \<le> 0.16" "(0.16::real) \<le> 1" "(0::real) \<le> 0.08" "(0.08::real) \<le> 1"
        "(0::real) \<le> 0.128" "(0.128::real) \<le> 1"
      by simp_all
    have s1: "above 0.16 (dist2 c2 w) (dist2 b2 w) hs2 = above 0.16 (dist2 c w) (dist2 b w) hs"
      using ctx small k(1,2) cl(1) c2(2) b2(2) by (rule above_scaledNear)
    have s2: "above 0.08 (dist2 b2 w) (dist2 a2 w) hs2 = above 0.08 (dist2 b w) (dist2 a w) hs"
      using ctx small k(3,4) cl(2) b2(2) a2(2) by (rule above_scaledNear)
    have s3: "above 0.128 (dist2 b2 w) (dist2 c2 w) hs2 = above 0.128 (dist2 b w) (dist2 c w) hs"
      using ctx small k(5,6) cl(3) b2(2) c2(2) by (rule above_scaledNear)
    show ?thesis
      unfolding isFingerExtended_above isFingerCurled_above pts pts2 hm
      using s1 s2 s3 by simp
  qed
  from both show "isFingerExtended lms2 m p t hs2 = isFingerExtended lms m p t hs"
    and "isFingerCurled lms2 m p t hs2 = isFingerCurled lms m p t hs"
    by simp_all
qed

lemma thumb_stable:
  assumes ctx: "scaledNear f \<eta> lms hs lms2 hs2" and small: "120 * \<eta> \<le> \<delta>"
    and clear: "thumbClear \<delta> lms hs"
  shows "isThumbExtended lms2 hs2 = isThumbExtended lms hs"
proof (cases "fingerPoints lms 2 3 4")
  case None
  have "fingerPoints lms2 2 3 4 = None"
    using ctx None by (rule scaledNear_fingerPoints_None)
  then show ?thesis using None by (simp add: isThumbExtended_def)
next
  case (Some q)
  obtain w a b c where q: "q = (w, a, b, c)" by (cases q) auto
  have pts: "fingerPoints lms 2 3 4 = Some (w, a, b, c)" using Some q by simp
  note d = fingerPoints_SomeD [OF pts]
  obtain a2 where a2: "lm_at lms2 2 = Some a2" "\<bar>dist2 a2 w - f\<^sup>2 * dist2 a w\<bar> \<le> 10 * \<eta>"
    using scaledNear_dist2 [OF ctx d(1) d(2)] by blast
  obtain b2 where b2: "lm_at lms2 3 = Some b2" "\<bar>dist2 b2 w - f\<^sup>2 * dist2 b w\<bar> \<le> 10 * \<eta>"
    using scaledNear_dist2 [OF ctx d(1) d(3)] by blast
  obtain c2 where c2: "lm_at lms2 4 = Some c2" "\<bar>dist2 c2 w - f\<^sup>2 * dist2 c w\<bar> \<le> 10 * \<eta>"
    using scaledNear_dist2 [OF ctx d(1) d(4)] by blast
  have w2: "lm_at lms2 0 = Some w" using ctx d(1) by (simp add: scaledNear_def)
  have pts2: "fingerPoints lms2 2 3 4 = Some (w, a2, b2, c2)"
    using w2 a2(1) b2(1) c2(1) by (rule fingerPoints_SomeI)
  have hm: "max hs 0.0001 = hs" "max hs2 0.0001 = hs2"
    using scaledNear_scale(1,2) [OF ctx] .
  have cl: "\<delta> < sq_margin 0.128 (dist2 c w) (dist2 b w) hs"
      "\<delta> < sq_margin 0.064 (dist2 b w) (dist2 a w) hs"
    using clear unfolding thumbClear_def pts hm by (simp_all add: Let_def)
  have k: "(0::real) \<le> 0.128" "(0.128::real) \<le> 1" "(0::real) \<le> 0.064" "(0.064::real) \<le> 1"
    by simp_all
  have s1: "above 0.128 (dist2 c2 w) (dist2 b2 w) hs2 = above 0.128 (dist2 c w) (dist2 b w) hs"
    using ctx small k(1,2) cl(1) c2(2) b2(2) by (rule above_scaledNear)
  have s2: "above 0.064 (dist2 b2 w) (dist2 a2 w) hs2 = above 0.064 (dist2 b w) (dist2 a w) hs"
    using ctx small k(3,4) cl(2) b2(2) a2(2) by (rule above_scaledNear)
  show ?thesis
    unfolding isThumbExtended_above pts pts2 hm
    using s1 s2 by simp
qed

lemma margin_scaledNear:
  assumes ctx: "scaledNear f \<eta> lms hs lms2 hs2"
    and k: "0 \<le> k" "k \<le> 1"
    and m: "\<delta> < sq_margin k xu yu hs"
    and ex: "\<bar>x2 - f\<^sup>2 * xu\<bar> \<le> 10 * \<eta>" and ey: "\<bar>y2 - f\<^sup>2 * yu\<bar> \<le> 10 * \<eta>"
  shows "\<delta> / 4 - 30 * \<eta> < sq_margin k x2 y2 hs2"
proof -
  have "\<delta> / 4 - 3 * (10 * \<eta>) < sq_margin k x2 y2 hs2"
    using scaledNear_scale(4) [OF ctx] k m ex ey scaledNear_scale(3) [OF ctx]
    by (rule above_margin)
  then show ?thesis by simp
qed

lemma fingerClear_scaledNear:
  assumes ctx: "scaledNear f \<eta> lms hs lms2 hs2"
    and clear: "fingerClear \<delta> lms m p t hs" and d: "\<delta>' \<le> \<delta> / 4 - 30 * \<eta>"
  shows "fingerClear \<delta>' lms2 m p t hs2"
proof (cases "fingerPoints lms m p t")
  case None
  have "fingerPoints lms2 m p t = None"
    using ctx None by (rule scaledNear_fingerPoints_None)
  then show ?thesis by (simp add: fingerClear_def)
next
  case (Some q)
  obtain w a b c where q: "q = (w, a, b, c)" by (cases q) auto
  have pts: "fingerPoints lms m p t = Some (w, a, b, c)" using Some q by simp
  note pd = fingerPoints_SomeD [OF pts]
  obtain a2 where a2: "lm_at lms2 m = Some a2" "\<bar>dist2 a2 w - f\<^sup>2 * dist2 a w\<bar> \<le> 10 * \<eta>"
    using scaledNear_dist2 [OF ctx pd(1) pd(2)] by blast
  obtain b2 where b2: "lm_at lms2 p = Some b2" "\<bar>dist2 b2 w - f\<^sup>2 * dist2 b w\<bar> \<le> 10 * \<eta>"
    using scaledNear_dist2 [OF ctx pd(1) pd(3)] by blast
  obtain c2 where c2: "lm_at lms2 t = Some c2" "\<bar>dist2 c2 w - f\<^sup>2 * dist2 c w\<bar> \<le> 10 * \<eta>"
    using scaledNear_dist2 [OF ctx pd(1) pd(4)] by blast
  have w2: "lm_at lms2 0 = Some w" using ctx pd(1) by (simp add: scaledNear_def)
  have pts2: "fingerPoints lms2 m p t = Some (w, a2, b2, c2)"
    using w2 a2(1) b2(1) c2(1) by (rule fingerPoints_SomeI)
  have hm: "max hs 0.0001 = hs" "max hs2 0.0001 = hs2"
    using scaledNear_scale(1,2) [OF ctx] .
  have cl: "\<delta> < sq_margin 0.16 (dist2 c w) (dist2 b w) hs"
      "\<delta> < sq_margin 0.08 (dist2 b w) (dist2 a w) hs"
      "\<delta> < sq_margin 0.128 (dist2 b w) (dist2 c w) hs"
    using clear unfolding fingerClear_def pts hm by (simp_all add: Let_def)
  have k: "(0::real) \<le> 0.16" "(0.16::real) \<le> 1" "(0::real) \<le> 0.08" "(0.08::real) \<le> 1"
      "(0::real) \<le> 0.128" "(0.128::real) \<le> 1"
    by simp_all
  have "\<delta> / 4 - 30 * \<eta> < sq_margin 0.16 (dist2 c2 w) (dist2 b2 w) hs2"
    using ctx k(1,2) cl(1) c2(2) b2(2) by (rule margin_scaledNear)
  then have m1: "\<delta>' < sq_margin 0.16 (dist2 c2 w) (dist2 b2 w) hs2" using d by linarith
  have "\<delta> / 4 - 30 * \<eta> < sq_margin 0.08 (dist2 b2 w) (dist2 a2 w) hs2"
    using ctx k(3,4) cl(2) b2(2) a2(2) by (rule margin_scaledNear)
  then have m2: "\<delta>' < sq_margin 0.08 (dist2 b2 w) (dist2 a2 w) hs2" using d by linarith
  have "\<delta> / 4 - 30 * \<eta> < sq_margin 0.128 (dist2 b2 w) (dist2 c2 w) hs2"
    using ctx k(5,6) cl(3) b2(2) c2(2) by (rule margin_scaledNear)
  then have m3: "\<delta>' < sq_margin 0.128 (dist2 b2 w) (dist2 c2 w) hs2" using d by linarith
  show ?thesis
    unfolding fingerClear_def pts2 hm using m1 m2 m3 by (simp add: Let_def)
qed

lemma thumbClear_scaledNear:
  assumes ctx: "scaledNear f \<eta> lms hs lms2 hs2"
    and clear: "thumbClear \<delta> lms hs" and d: "\<delta>' \<le> \<delta> / 4 - 30 * \<eta>"
  shows "thumbClear \<delta>' lms2 hs2"
proof (cases "fingerPoints lms 2 3 4")
  case None
  have "fingerPoints lms2 2 3 4 = None"
    using ctx None by (rule scaledNear_fingerPoints_None)
  then show ?thesis by (simp add: thumbClear_def)
next
  case (Some q)
  obtain w a b c where q: "q = (w, a, b, c)" by (cases q) auto
  have pts: "fingerPoints lms 2 3 4 = Some (w, a, b, c)" using Some q by simp
  note pd = fingerPoints_SomeD [OF pts]
  obtain a2 where a2: "lm_at lms2 2 = Some a2" "\<bar>dist2 a2 w - f\<^sup>2 * dist2 a w\<bar> \<le> 10 * \<eta>"
    using scaledNear_dist2 [OF ctx pd(1) pd(2)] by blast
  obtain b2 where b2: "lm_at lms2 3 = Some b2" "\<bar>dist2 b2 w - f\<^sup>2 * dist2 b w\<bar> \<le> 10 * \<eta>"
    using scaledNear_dist2 [OF ctx pd(1) pd(3)] by blast
  obtain c2 where c2: "lm_at lms2 4 = Some c2" "\<bar>dist2 c2 w - f\<^sup>2 * dist2 c w\<bar> \<le> 10 * \<eta>"
    using scaledNear_dist2 [OF ctx pd(1) pd(4)] by blast
  have w2: "lm_at lms2 0 = Some w" using ctx pd(1) by (simp add: scaledNear_def)
  have pts2: "fingerPoints lms2 2 3 4 = Some (w, a2, b2, c2)"
    using w2 a2(1) b2(1) c2(1) by (rule fingerPoints_SomeI)
  have hm: "max hs 0.0001 = hs" "max hs2 0.0001 = hs2"
    using scaledNear_scale(1,2) [OF ctx] .
  have cl: "\<delta> < sq_margin 0.128 (dist2 c w) (dist2 b w) hs"
      "\<delta> < sq_margin 0.064 (dist2 b w) (dist2 a w) hs"
    using clear unfolding thumbClear_def pts hm by (simp_all add: Let_def)
  have k: "(0::real) \<le> 0.128" "(0.128::real) \<le> 1" "(0::real) \<le> 0.064" "(0.064::real) \<le> 1"
    by simp_all
  have "\<delta> / 4 - 30 * \<eta> < sq_margin 0.128 (dist2 c2 w) (dist2 b2 w) hs2"
    using ctx k(1,2) cl(1) c2(2) b2(2) by (rule margin_scaledNear)
  then have m1: "\<delta>' < sq_margin 0.128 (dist2 c2 w) (dist2 b2 w) hs2" using d by linarith
  have "\<delta> / 4 - 30 * \<eta> < sq_margin 0.064 (dist2 b2 w) (dist2 a2 w) hs2"
    using ctx k(3,4) cl(2) b2(2) a2(2) by (rule margin_scaledNear)
  then have m2: "\<delta>' < sq_margin 0.064 (dist2 b2 w) (dist2 a2 w) hs2" using d by linarith
  show ?thesis
    unfolding thumbClear_def pts2 hm using m1 m2 by (simp add: Let_def)
qed

lemma shapeRules_thumbDown:
  "shapeRules lms hs w tt tm =
     (if waterShape lms hs then Some Water
      else if assistanceShape lms hs then Some Assistance
      else if fourFingers lms hs then Some Thank_you
      else if thumb lms hs \<and> \<not> index lms hs \<and> \<not> middle lms hs \<and> \<not> ring lms hs \<and> \<not> pinky lms hs
      then (if thumbDown hs w tt tm then Some No else Some Good_okay)
      else if \<not> thumb lms hs \<and> index lms hs \<and> middle lms hs \<and> \<not> ring lms hs \<and> \<not> pinky lms hs
      then Some Help
      else if \<not> thumb lms hs \<and> index lms hs \<and> \<not> middle lms hs \<and> \<not> ring lms hs \<and> \<not> pinky lms hs
      then Some Wait
      else if fist lms hs then Some Yes
      else if openHand lms hs tt then Some Hello
      else None)"
  by (simp add: shapeRules_def thumbDown_def Let_def)

lemma norm_diff:
  fixes a b c d :: real
  shows "\<bar>sqrt (a\<^sup>2 + b\<^sup>2) - sqrt (c\<^sup>2 + d\<^sup>2)\<bar> \<le> \<bar>a - c\<bar> + \<bar>b - d\<bar>"
proof -
  have one: "sqrt (x\<^sup>2 + y\<^sup>2) \<le> sqrt (u\<^sup>2 + v\<^sup>2) + (\<bar>x - u\<bar> + \<bar>y - v\<bar>)" for x y u v :: real
  proof -
    have "sqrt ((u + (x - u))\<^sup>2 + (v + (y - v))\<^sup>2)
        \<le> sqrt (u\<^sup>2 + v\<^sup>2) + sqrt ((x - u)\<^sup>2 + (y - v)\<^sup>2)"
      by (rule real_sqrt_sum_squares_triangle_ineq)
    moreover have "sqrt ((x - u)\<^sup>2 + (y - v)\<^sup>2) \<le> \<bar>x - u\<bar> + \<bar>y - v\<bar>"
      by (rule sqrt_sum_squares_le_sum_abs)
    ultimately show ?thesis by simp
  qed
  from one [of a b c d] one [of c d a b] show ?thesis by linarith
qed

lemma dist_lm_norm: "dist_lm a b = sqrt ((lm_x a - lm_x b)\<^sup>2 + (lm_y a - lm_y b)\<^sup>2)"
  by (simp add: dist_lm_def dist2_def Let_def power2_eq_square)

lemma dist_lm_near:
  assumes "\<bar>lm_x a2 - lm_x a\<bar> \<le> \<eta>" "\<bar>lm_y a2 - lm_y a\<bar> \<le> \<eta>"
    and "\<bar>lm_x b2 - lm_x b\<bar> \<le> \<eta>" "\<bar>lm_y b2 - lm_y b\<bar> \<le> \<eta>"
  shows "\<bar>dist_lm a2 b2 - dist_lm a b\<bar> \<le> 4 * \<eta>"
  unfolding dist_lm_norm
  using norm_diff [of "lm_x a2 - lm_x b2" "lm_y a2 - lm_y b2" "lm_x a - lm_x b" "lm_y a - lm_y b"]
    assms
  by linarith

lemma lin_stable0:
  fixes f k \<delta> e :: real
  assumes "1 / 2 \<le> f" and "0 \<le> k" "k \<le> 1"
    and "\<delta> < \<bar>xu - k * hu\<bar>"
    and "\<bar>x2 - f * xu\<bar> \<le> e"
    and "\<bar>h2 - f * hu\<bar> \<le> e"
    and "6 * e \<le> \<delta>"
  shows "(k * h2 < x2) = (k * hu < xu)"
  using lin_stable [of f k \<delta> xu 0 hu x2 0 e h2] assms by simp

lemma max_scale:
  fixes f :: real
  assumes "0 \<le> f"
  shows "max (wy + f * (my - wy)) wy = wy + f * (max my wy - wy)"
proof (cases "wy \<le> my")
  case True
  then have "0 \<le> f * (my - wy)" using assms by simp
  then show ?thesis using True by (simp add: max_def)
next
  case False
  then have "f * (my - wy) \<le> 0" using assms by (simp add: mult_le_0_iff)
  then show ?thesis using False by (simp add: max_def)
qed

lemma scaledNear_classifyPoints_None:
  assumes ctx: "scaledNear f \<eta> lms hs lms2 hs2" and "classifyPoints lms = None"
  shows "classifyPoints lms2 = None"
proof -
  have w: "lm_at lms2 0 = lm_at lms 0" using ctx by (simp add: scaledNear_def)
  from assms(2) have "lm_at lms 0 = None \<or> lm_at lms 4 = None \<or> lm_at lms 2 = None"
    by (simp add: classifyPoints_None_iff)
  then have "lm_at lms2 0 = None \<or> lm_at lms2 4 = None \<or> lm_at lms2 2 = None"
    using w scaledNear_none [OF ctx] by auto
  then show ?thesis by (simp add: classifyPoints_None_iff)
qed

lemma scaledNear_classifyPoints_Some:
  assumes ctx: "scaledNear f \<eta> lms hs lms2 hs2" and cp: "classifyPoints lms = Some (w, tt, tm)"
  shows "\<exists>tt2 tm2. classifyPoints lms2 = Some (w, tt2, tm2)"
proof -
  have p: "lm_at lms 0 = Some w" "lm_at lms 4 = Some tt" "lm_at lms 2 = Some tm"
    using cp by (auto simp: classifyPoints_def split: option.splits)
  have w2: "lm_at lms2 0 = Some w" using ctx p(1) by (simp add: scaledNear_def)
  obtain tt2 where t: "lm_at lms2 4 = Some tt2" using scaledNear_point [OF ctx p(1) p(2)] by blast
  obtain tm2 where m: "lm_at lms2 2 = Some tm2" using scaledNear_point [OF ctx p(1) p(3)] by blast
  show ?thesis using w2 t m by (simp add: classifyPoints_def)
qed

lemma classifyPoints_SomeD:
  assumes "classifyPoints lms = Some (w, tt, tm)"
  shows "lm_at lms 0 = Some w" "lm_at lms 4 = Some tt" "lm_at lms 2 = Some tm"
  using assms by (auto simp: classifyPoints_def split: option.splits)

lemma spread_near:
  assumes ctx: "scaledNear f \<eta> lms hs lms2 hs2"
    and cp: "classifyPoints lms = Some (w, tt, tm)"
    and cp2: "classifyPoints lms2 = Some (w, tt2, tm2)"
    and im: "lm_at lms 5 = Some im"
  shows "\<exists>im2. lm_at lms2 5 = Some im2 \<and> \<bar>dist_lm tt2 im2 - f * dist_lm tt im\<bar> \<le> 4 * \<eta>"
proof -
  note p = classifyPoints_SomeD [OF cp] and p2 = classifyPoints_SomeD [OF cp2]
  have c: "1 / 2 \<le> f" using ctx by (simp add: scaledNear_def)
  obtain im2 where im2: "lm_at lms2 5 = Some im2"
      "\<bar>lm_x im2 - lm_x (scaleAbout w f im)\<bar> \<le> \<eta>" "\<bar>lm_y im2 - lm_y (scaleAbout w f im)\<bar> \<le> \<eta>"
    using scaledNear_point [OF ctx p(1) im] by blast
  obtain t' where t': "lm_at lms2 4 = Some t'"
      "\<bar>lm_x t' - lm_x (scaleAbout w f tt)\<bar> \<le> \<eta>" "\<bar>lm_y t' - lm_y (scaleAbout w f tt)\<bar> \<le> \<eta>"
    using scaledNear_point [OF ctx p(1) p(2)] by blast
  have eq: "t' = tt2" using t'(1) p2(2) by simp
  have "\<bar>dist_lm tt2 im2 - dist_lm (scaleAbout w f tt) (scaleAbout w f im)\<bar> \<le> 4 * \<eta>"
    using t'(2,3) im2(2,3) unfolding eq by (rule dist_lm_near)
  moreover have "dist_lm (scaleAbout w f tt) (scaleAbout w f im) = f * dist_lm tt im"
    using c by (intro dist_lm_scale) simp
  ultimately have "\<bar>dist_lm tt2 im2 - f * dist_lm tt im\<bar> \<le> 4 * \<eta>" by simp
  then show ?thesis using im2(1) by blast
qed

lemma spread_stable:
  assumes ctx: "scaledNear f \<eta> lms hs lms2 hs2" and small: "120 * \<eta> \<le> \<delta>"
    and clear: "spreadClear \<delta> lms hs"
    and cp: "classifyPoints lms = Some (w, tt, tm)"
    and cp2: "classifyPoints lms2 = Some (w, tt2, tm2)"
  shows "thumbSpreadOk lms2 hs2 tt2 = thumbSpreadOk lms hs tt"
proof (cases "lm_at lms 5")
  case None
  have "lm_at lms2 5 = None" using ctx None by (rule scaledNear_none)
  then show ?thesis using None by (simp add: thumbSpreadOk_def)
next
  case (Some im)
  have c: "1 / 2 \<le> f" "\<bar>hs2 - f * hs\<bar> \<le> \<eta>" "0 \<le> \<eta>"
    using ctx by (simp_all add: scaledNear_def)
  obtain im2 where im2: "lm_at lms2 5 = Some im2"
      and ex: "\<bar>dist_lm tt2 im2 - f * dist_lm tt im\<bar> \<le> 4 * \<eta>"
    using spread_near [OF ctx cp cp2 Some] by blast
  have eh: "\<bar>hs2 - f * hs\<bar> \<le> 4 * \<eta>" using c(2,3) by linarith
  have m: "\<delta> < \<bar>dist_lm tt im - 0.48 * hs\<bar>"
    using clear unfolding spreadClear_def cp Some by simp
  have k: "(0::real) \<le> 0.48" "(0.48::real) \<le> 1" by simp_all
  have s: "6 * (4 * \<eta>) \<le> \<delta>" using small c(3) by linarith
  have "(0.48 * hs2 < dist_lm tt2 im2) = (0.48 * hs < dist_lm tt im)"
    using c(1) k m ex eh s by (rule lin_stable0)
  then show ?thesis
    unfolding thumbSpreadOk_def Some im2 by simp
qed

lemma spreadClear_scaledNear:
  assumes ctx: "scaledNear f \<eta> lms hs lms2 hs2"
    and clear: "spreadClear \<delta> lms hs" and d: "\<delta>' \<le> \<delta> / 2 - 8 * \<eta>"
  shows "spreadClear \<delta>' lms2 hs2"
proof (cases "classifyPoints lms")
  case None
  have "classifyPoints lms2 = None"
    using ctx None by (rule scaledNear_classifyPoints_None)
  then show ?thesis by (simp add: spreadClear_def)
next
  case (Some q)
  obtain w tt tm where q: "q = (w, tt, tm)" by (cases q) auto
  have cp: "classifyPoints lms = Some (w, tt, tm)" using Some q by simp
  obtain tt2 tm2 where cp2: "classifyPoints lms2 = Some (w, tt2, tm2)"
    using scaledNear_classifyPoints_Some [OF ctx cp] by blast
  show ?thesis
  proof (cases "lm_at lms 5")
    case None
    have "lm_at lms2 5 = None" using ctx None by (rule scaledNear_none)
    then show ?thesis by (simp add: spreadClear_def cp2)
  next
    case (Some im)
    have c: "1 / 2 \<le> f" "\<bar>hs2 - f * hs\<bar> \<le> \<eta>" "0 \<le> \<eta>"
      using ctx by (simp_all add: scaledNear_def)
    obtain im2 where im2: "lm_at lms2 5 = Some im2"
        and ex: "\<bar>(dist_lm tt2 im2 - 0) - f * (dist_lm tt im - 0)\<bar> \<le> 4 * \<eta>"
      using spread_near [OF ctx cp cp2 Some] by auto
    have eh: "\<bar>hs2 - f * hs\<bar> \<le> 4 * \<eta>" using c(2,3) by linarith
    have m: "\<delta> < \<bar>dist_lm tt im - (0 + 0.48 * hs)\<bar>"
      using clear unfolding spreadClear_def cp Some by simp
    have k: "(0::real) \<le> 0.48" "(0.48::real) \<le> 1" by simp_all
    have "\<delta> / 2 - 2 * (4 * \<eta>) < \<bar>dist_lm tt2 im2 - (0 + 0.48 * hs2)\<bar>"
      using c(1) k m ex eh by (rule lin_margin)
    then have "\<delta>' < \<bar>dist_lm tt2 im2 - 0.48 * hs2\<bar>" using d by simp
    then show ?thesis
      unfolding spreadClear_def cp2 im2 by simp
  qed
qed

lemma down_near:
  assumes ctx: "scaledNear f \<eta> lms hs lms2 hs2"
    and cp: "classifyPoints lms = Some (w, tt, tm)"
    and cp2: "classifyPoints lms2 = Some (w, tt2, tm2)"
  shows "\<bar>(lm_y tt2 - max (lm_y tm2) (lm_y w)) - f * (lm_y tt - max (lm_y tm) (lm_y w))\<bar> \<le> 2 * \<eta>"
proof -
  note p = classifyPoints_SomeD [OF cp] and p2 = classifyPoints_SomeD [OF cp2]
  have c: "1 / 2 \<le> f" using ctx by (simp add: scaledNear_def)
  have f0: "0 \<le> f" using c by linarith
  obtain t' where t': "lm_at lms2 4 = Some t'" "\<bar>lm_y t' - lm_y (scaleAbout w f tt)\<bar> \<le> \<eta>"
    using scaledNear_point [OF ctx p(1) p(2)] by blast
  obtain m' where m': "lm_at lms2 2 = Some m'" "\<bar>lm_y m' - lm_y (scaleAbout w f tm)\<bar> \<le> \<eta>"
    using scaledNear_point [OF ctx p(1) p(3)] by blast
  have et: "\<bar>lm_y tt2 - (lm_y w + f * (lm_y tt - lm_y w))\<bar> \<le> \<eta>"
    using t' p2(2) by (simp add: scaleAbout_def)
  have em: "\<bar>lm_y tm2 - (lm_y w + f * (lm_y tm - lm_y w))\<bar> \<le> \<eta>"
    using m' p2(3) by (simp add: scaleAbout_def)
  have "\<bar>max (lm_y tm2) (lm_y w) - max (lm_y w + f * (lm_y tm - lm_y w)) (lm_y w)\<bar> \<le> \<eta>"
    using em by (simp add: max_def abs_if split: if_splits)
  then have emx: "\<bar>max (lm_y tm2) (lm_y w) - (lm_y w + f * (max (lm_y tm) (lm_y w) - lm_y w))\<bar> \<le> \<eta>"
    by (simp add: max_scale [OF f0])
  have "(lm_y tt2 - max (lm_y tm2) (lm_y w)) - f * (lm_y tt - max (lm_y tm) (lm_y w))
      = (lm_y tt2 - (lm_y w + f * (lm_y tt - lm_y w)))
        - (max (lm_y tm2) (lm_y w) - (lm_y w + f * (max (lm_y tm) (lm_y w) - lm_y w)))"
    by (simp add: algebra_simps)
  then show ?thesis using et emx by linarith
qed

lemma down_stable:
  assumes ctx: "scaledNear f \<eta> lms hs lms2 hs2" and small: "120 * \<eta> \<le> \<delta>"
    and clear: "downClear \<delta> lms hs"
    and cp: "classifyPoints lms = Some (w, tt, tm)"
    and cp2: "classifyPoints lms2 = Some (w, tt2, tm2)"
  shows "thumbDown hs2 w tt2 tm2 = thumbDown hs w tt tm"
proof -
  have c: "1 / 2 \<le> f" "\<bar>hs2 - f * hs\<bar> \<le> \<eta>" "0 \<le> \<eta>"
    using ctx by (simp_all add: scaledNear_def)
  note exy = down_near [OF ctx cp cp2]
  have eh: "\<bar>hs2 - f * hs\<bar> \<le> 2 * \<eta>" using c(2,3) by linarith
  have m: "\<delta> < \<bar>lm_y tt - (max (lm_y tm) (lm_y w) + 0.24 * hs)\<bar>"
    using clear unfolding downClear_def cp by simp
  have k: "(0::real) \<le> 0.24" "(0.24::real) \<le> 1" by simp_all
  have s: "6 * (2 * \<eta>) \<le> \<delta>" using small c(3) by linarith
  show ?thesis
    unfolding thumbDown_def
    using c(1) k m exy eh s by (rule lin_stable)
qed

lemma downClear_scaledNear:
  assumes ctx: "scaledNear f \<eta> lms hs lms2 hs2"
    and clear: "downClear \<delta> lms hs" and d: "\<delta>' \<le> \<delta> / 2 - 4 * \<eta>"
  shows "downClear \<delta>' lms2 hs2"
proof (cases "classifyPoints lms")
  case None
  have "classifyPoints lms2 = None"
    using ctx None by (rule scaledNear_classifyPoints_None)
  then show ?thesis by (simp add: downClear_def)
next
  case (Some q)
  obtain w tt tm where q: "q = (w, tt, tm)" by (cases q) auto
  have cp: "classifyPoints lms = Some (w, tt, tm)" using Some q by simp
  obtain tt2 tm2 where cp2: "classifyPoints lms2 = Some (w, tt2, tm2)"
    using scaledNear_classifyPoints_Some [OF ctx cp] by blast
  have c: "1 / 2 \<le> f" "\<bar>hs2 - f * hs\<bar> \<le> \<eta>" "0 \<le> \<eta>"
    using ctx by (simp_all add: scaledNear_def)
  note exy = down_near [OF ctx cp cp2]
  have eh: "\<bar>hs2 - f * hs\<bar> \<le> 2 * \<eta>" using c(2,3) by linarith
  have m: "\<delta> < \<bar>lm_y tt - (max (lm_y tm) (lm_y w) + 0.24 * hs)\<bar>"
    using clear unfolding downClear_def cp by simp
  have k: "(0::real) \<le> 0.24" "(0.24::real) \<le> 1" by simp_all
  have "\<delta> / 2 - 2 * (2 * \<eta>) < \<bar>lm_y tt2 - (max (lm_y tm2) (lm_y w) + 0.24 * hs2)\<bar>"
    using c(1) k m exy eh by (rule lin_margin)
  then have "\<delta>' < \<bar>lm_y tt2 - (max (lm_y tm2) (lm_y w) + 0.24 * hs2)\<bar>" using d by simp
  then show ?thesis
    unfolding downClear_def cp2 by simp
qed

lemma shapes_stable:
  assumes ctx: "scaledNear f \<eta> lms hs lms2 hs2" and small: "120 * \<eta> \<le> \<delta>"
    and clear: "clearHand \<delta> lms hs"
  shows "thumb lms2 hs2 = thumb lms hs"
    and "index lms2 hs2 = index lms hs"
    and "middle lms2 hs2 = middle lms hs"
    and "ring lms2 hs2 = ring lms hs"
    and "pinky lms2 hs2 = pinky lms hs"
    and "palmFour lms2 hs2 = palmFour lms hs"
    and "fist lms2 hs2 = fist lms hs"
    and "fourFingers lms2 hs2 = fourFingers lms hs"
    and "waterShape lms2 hs2 = waterShape lms hs"
    and "assistanceShape lms2 hs2 = assistanceShape lms hs"
proof -
  have c: "thumbClear \<delta> lms hs" "fingerClear \<delta> lms 5 6 8 hs" "fingerClear \<delta> lms 9 10 12 hs"
      "fingerClear \<delta> lms 13 14 16 hs" "fingerClear \<delta> lms 17 18 20 hs"
    using clear by (simp_all add: clearHand_def)
  note st = thumb_stable [OF ctx small c(1)]
    finger_stable [OF ctx small c(2)] finger_stable [OF ctx small c(3)]
    finger_stable [OF ctx small c(4)] finger_stable [OF ctx small c(5)]
  show "thumb lms2 hs2 = thumb lms hs"
    and "index lms2 hs2 = index lms hs"
    and "middle lms2 hs2 = middle lms hs"
    and "ring lms2 hs2 = ring lms hs"
    and "pinky lms2 hs2 = pinky lms hs"
    and "palmFour lms2 hs2 = palmFour lms hs"
    and "fist lms2 hs2 = fist lms hs"
    and "fourFingers lms2 hs2 = fourFingers lms hs"
    and "waterShape lms2 hs2 = waterShape lms hs"
    and "assistanceShape lms2 hs2 = assistanceShape lms hs"
    by (simp_all only: thumb_def index_def middle_def ring_def pinky_def palmFour_def fist_def
        fourFingers_def waterShape_def assistanceShape_def indexCurled_def middleCurled_def
        ringCurled_def pinkyCurled_def st)
qed

lemma afterWave_stable:
  assumes ctx: "scaledNear f \<eta> lms hs lms2 hs2" and small: "120 * \<eta> \<le> \<delta>"
    and clear: "clearHand \<delta> lms hs"
    and cp: "classifyPoints lms = Some (w, tt, tm)"
    and cp2: "classifyPoints lms2 = Some (w, tt2, tm2)"
  shows "afterWave nowS tr lms2 hs2 w tt2 tm2 = afterWave nowS tr lms hs w tt tm"
proof -
  have c: "spreadClear \<delta> lms hs" "downClear \<delta> lms hs"
    using clear by (simp_all add: clearHand_def)
  note sh = shapes_stable [OF ctx small clear]
  have sp: "thumbSpreadOk lms2 hs2 tt2 = thumbSpreadOk lms hs tt"
    using ctx small c(1) cp cp2 by (rule spread_stable)
  have oh: "openHand lms2 hs2 tt2 = openHand lms hs tt"
    by (simp only: openHand_def sh sp)
  have dn: "thumbDown hs2 w tt2 tm2 = thumbDown hs w tt tm"
    using ctx small c(2) cp cp2 by (rule down_stable)
  have sr: "shapeRules lms2 hs2 w tt2 tm2 = shapeRules lms hs w tt tm"
    by (simp only: shapeRules_thumbDown sh oh dn)
  show ?thesis
    by (simp only: afterWave_def sh oh sr)
qed

lemma clearHand_scaledNear:
  assumes ctx: "scaledNear f \<eta> lms hs lms2 hs2"
    and clear: "clearHand \<delta> lms hs" and d0: "0 \<le> \<delta>" and d: "\<delta>' \<le> \<delta> / 4 - 30 * \<eta>"
  shows "clearHand \<delta>' lms2 hs2"
proof -
  have e0: "0 \<le> \<eta>" using ctx by (simp add: scaledNear_def)
  have d2: "\<delta>' \<le> \<delta> / 2 - 8 * \<eta>" and d3: "\<delta>' \<le> \<delta> / 2 - 4 * \<eta>"
    using d d0 e0 by linarith+
  have c: "thumbClear \<delta> lms hs" "fingerClear \<delta> lms 5 6 8 hs" "fingerClear \<delta> lms 9 10 12 hs"
      "fingerClear \<delta> lms 13 14 16 hs" "fingerClear \<delta> lms 17 18 20 hs"
      "spreadClear \<delta> lms hs" "downClear \<delta> lms hs"
    using clear by (simp_all add: clearHand_def)
  show ?thesis
    unfolding clearHand_def
    by (intro conjI thumbClear_scaledNear [OF ctx c(1) d]
        fingerClear_scaledNear [OF ctx c(2) d] fingerClear_scaledNear [OF ctx c(3) d]
        fingerClear_scaledNear [OF ctx c(4) d] fingerClear_scaledNear [OF ctx c(5) d]
        spreadClear_scaledNear [OF ctx c(6) d2] downClear_scaledNear [OF ctx c(7) d3])
qed

lemma near_refl: "0 \<le> \<eta> \<Longrightarrow> near \<eta> xs xs"
  unfolding near_def by (rule list_all2_refl) (simp add: option.rel_refl)

lemma scaled_wrist: "lm_at (scaleLandmarks f lms) 0 = lm_at lms 0"
proof (cases "lm_at lms 0")
  case None
  then show ?thesis by (simp add: scaleLandmarks_no_wrist)
next
  case (Some w)
  then show ?thesis by (simp add: lm_at_scale scaleAbout_self)
qed

lemma hand_ily_inFrame: "inFrame hand_ily"
  by (simp add: inFrame_def hand_ily_def pt_def)

lemma hand_ily_spread:
  "0.17 \<le> dist_lm \<lparr>lm_x = 0.3, lm_y = 0.5, lm_z = None\<rparr> \<lparr>lm_x = 0.44, lm_y = 0.6, lm_z = None\<rparr>"
  unfolding dist_lm_def by (rule real_le_rsqrt) (simp add: dist2_def Let_def power2_eq_square)

lemma hand_ily_clear: "clearHand (1 / 10 ^ 9) hand_ily 0.2"
proof -
  have "thumbClear (1 / 10 ^ 9) hand_ily 0.2"
    by (simp add: thumbClear_def fingerPoints_def lm_at_def hand_ily_def pt_def dist2_def
        sq_margin_def Let_def power2_eq_square)
  moreover have "fingerClear (1 / 10 ^ 9) hand_ily 5 6 8 0.2"
      "fingerClear (1 / 10 ^ 9) hand_ily 9 10 12 0.2"
      "fingerClear (1 / 10 ^ 9) hand_ily 13 14 16 0.2"
      "fingerClear (1 / 10 ^ 9) hand_ily 17 18 20 0.2"
    by (simp_all add: fingerClear_def fingerPoints_def lm_at_def hand_ily_def pt_def dist2_def
        sq_margin_def Let_def power2_eq_square)
  moreover have "spreadClear (1 / 10 ^ 9) hand_ily 0.2"
    using hand_ily_spread by (simp add: spreadClear_def classifyPoints_def lm_at_def hand_ily_def pt_def)
  moreover have "downClear (1 / 10 ^ 9) hand_ily 0.2"
    by (simp add: downClear_def classifyPoints_def lm_at_def hand_ily_def pt_def)
  ultimately show ?thesis by (simp only: clearHand_def simp_thms)
qed

section \<open>The claims about the classifier, the combiner and the calibration\<close>

subsection \<open>Scale invariance\<close>

text \<open>
  Claim C1, as stated, says that a hand scaled about its wrist by \<open>f\<close>, classified with
  the scale reference scaled by \<open>f\<close> and from the same tracker state, gets the same gesture.
  The wave block compares the wrist's movement in \<open>x\<close>, which such a scaling leaves as it
  is, with thresholds proportional to the scale reference. In the middle of a wave, the
  hand \<open>hand_four\<close> with scale reference 0.2 has moved too little (0.02 against
  \<open>0.12 \<cdot> 0.2\<close>) for a third flip and is a \<open>Thank_you\<close>; scaled by 0.5, with scale
  reference 0.1, the same movement counts (0.02 against \<open>0.12 \<cdot> 0.1\<close>) and the hand is a
  \<open>Goodbye\<close>.
\<close>

theorem scale_invariance_counterexample:
  "fst (classifyGesture 0.2 2000 2000 waving hand_four) = Some Thank_you
   \<and> fst (classifyGesture (0.5 * 0.2) 2000 2000 waving (scaleLandmarks 0.5 hand_four)) = Some Goodbye
   \<and> scaleRef (scaleLandmarks 0.5 hand_four) (0.5 * 0.2) = 0.5 * scaleRef hand_four 0.2"
proof -
  let ?w = "\<lparr>lm_x = 0.5, lm_y = 0.8, lm_z = None\<rparr>"
  have pf: "palmFour hand_four (scaleRef hand_four 0.2)"
    unfolding hand_four_scaleRef using hand_four_fingers by (simp add: palmFour_def)
  have th: "\<not> thumb hand_four (scaleRef hand_four 0.2)"
    unfolding hand_four_scaleRef by (rule hand_four_fingers)
  have wv: "\<not> fst (waveStep (scaleRef hand_four 0.2) 2000 (lm_x ?w) (waveRef waving))"
    unfolding hand_four_scaleRef
    by (simp add: waveStep_def waving_def wave_restart_def Let_def)
  have st: "fst (stillStep 2000 ?w (stillRef waving)) = None"
    by (simp add: stillStep_def waving_def Let_def)
  have one: "fst (classifyGesture 0.2 2000 2000 waving hand_four) = Some Thank_you"
    using classifyGesture_no_wave [OF hand_four_points wv, of 2000]
      afterWave_thank_you [OF st th pf]
    by simp
  obtain tt tm where cp: "classifyPoints (scaleLandmarks 0.5 hand_four) = Some (?w, tt, tm)"
    using hand_four_scaled_points by blast
  have pf': "palmFour (scaleLandmarks 0.5 hand_four) (scaleRef (scaleLandmarks 0.5 hand_four) (0.5 * 0.2))"
    unfolding hand_four_scaled_scaleRef by (rule hand_four_scaled_fingers)
  have wv': "fst (waveStep (scaleRef (scaleLandmarks 0.5 hand_four) (0.5 * 0.2)) 2000 (lm_x ?w)
      (waveRef waving))"
    unfolding hand_four_scaled_scaleRef
    by (simp add: waveStep_def waving_def wave_restart_def Let_def)
  have two: "fst (classifyGesture (0.5 * 0.2) 2000 2000 waving (scaleLandmarks 0.5 hand_four))
      = Some Goodbye"
    using cp pf' wv' by (rule classifyGesture_wave)
  have three: "scaleRef (scaleLandmarks 0.5 hand_four) (0.5 * 0.2) = 0.5 * scaleRef hand_four 0.2"
    unfolding hand_four_scaled_scaleRef hand_four_scaleRef by (rule refl)
  from one two three show ?thesis by (intro conjI)
qed

text \<open>
  Claim C1, amended. The tests of the classifier are strict comparisons, and the numbers
  of the program are IEEE doubles: a hand that sits on a threshold can fall on either
  side of it once the scaled coordinates and the scaled reference are rounded. So the
  property is stated for hands clear of every threshold, and for every second hand that
  is the scaled hand up to an error, which covers the rounding. Take a hand in the frame
  whose scale reference is at most 2 and whose shape comparisons are all clear of equality
  by \<open>10\<^sup>-\<^sup>9\<close>, a factor \<open>f\<close> in \<open>[0.5, 2]\<close>, and a second hand with the same wrist, whose
  points lie within \<open>10\<^sup>-\<^sup>1\<^sup>2\<close> of the hand scaled about its wrist by \<open>f\<close> and whose scale
  reference is within \<open>10\<^sup>-\<^sup>1\<^sup>2\<close> of \<open>f\<close> times that of the hand. Then classifying the second
  hand, from the same tracker state and at the same clock readings, returns the same
  gesture as classifying the hand itself, unless one of the two runs returns \<open>Goodbye\<close>
  from the wave block; and the shape comparisons of the second hand are clear of equality
  by \<open>10\<^sup>-\<^sup>1\<^sup>0\<close>, far more than the error of evaluating them in doubles.
\<close>

theorem scale_invariance:
  assumes f: "0.5 \<le> f" "f \<le> 2"
    and frame: "inFrame lms" and bound: "scaleRef lms b \<le> 2"
    and clear: "clearHand (1 / 10 ^ 9) lms (scaleRef lms b)"
    and wrist: "lm_at lms2 0 = lm_at lms 0"
    and near: "near (1 / 10 ^ 12) (scaleLandmarks f lms) lms2"
    and sr: "\<bar>scaleRef lms2 b' - f * scaleRef lms b\<bar> \<le> 1 / 10 ^ 12"
  shows "(fst (classifyGesture b' nowW nowS tr lms2) = fst (classifyGesture b nowW nowS tr lms)
          \<or> fst (classifyGesture b' nowW nowS tr lms2) = Some Goodbye
          \<or> fst (classifyGesture b nowW nowS tr lms) = Some Goodbye)
         \<and> clearHand (1 / 10 ^ 10) lms2 (scaleRef lms2 b')"
proof -
  let ?hs = "scaleRef lms b" and ?hs2 = "scaleRef lms2 b'"
  have fl: "1 / 10000 \<le> ?hs" "1 / 10000 \<le> ?hs2"
    using scaleRef_floor [of lms b] scaleRef_floor [of lms2 b'] by simp_all
  have ctx: "scaledNear f (1 / 10 ^ 12) lms ?hs lms2 ?hs2"
    unfolding scaledNear_def using f frame bound wrist near sr fl by simp
  have small: "120 * (1 / 10 ^ 12) \<le> (1 / 10 ^ 9 :: real)" by simp
  have d0: "(0::real) \<le> 1 / 10 ^ 9" by simp
  have d: "(1 / 10 ^ 10 :: real) \<le> (1 / 10 ^ 9) / 4 - 30 * (1 / 10 ^ 12)" by simp
  have second: "clearHand (1 / 10 ^ 10) lms2 ?hs2"
    using ctx clear d0 d by (rule clearHand_scaledNear)
  have first: "fst (classifyGesture b' nowW nowS tr lms2) = fst (classifyGesture b nowW nowS tr lms)
          \<or> fst (classifyGesture b' nowW nowS tr lms2) = Some Goodbye
          \<or> fst (classifyGesture b nowW nowS tr lms) = Some Goodbye"
  proof (cases "classifyPoints lms")
    case None
    then have "classifyPoints lms2 = None"
      using ctx by (rule scaledNear_classifyPoints_None [rotated])
    then show ?thesis using None by (simp add: classifyGesture_def)
  next
    case (Some q)
    obtain w tt tm where q: "q = (w, tt, tm)" by (cases q) auto
    have cp: "classifyPoints lms = Some (w, tt, tm)" using Some q by simp
    obtain tt2 tm2 where cp2: "classifyPoints lms2 = Some (w, tt2, tm2)"
      using scaledNear_classifyPoints_Some [OF ctx cp] by blast
    have "afterWave nowS tr lms2 ?hs2 w tt2 tm2 = afterWave nowS tr lms ?hs w tt tm"
      using ctx small clear cp cp2 by (rule afterWave_stable)
    then show ?thesis
      using classifyGesture_cases [OF cp, of b nowW nowS tr]
        classifyGesture_cases [OF cp2, of b' nowW nowS tr]
      by auto
  qed
  from first second show ?thesis by (rule conjI)
qed

text \<open>
  The amended claim at \<open>hand_ily\<close>, scaled by 1.5 with the baseline going from 0.2 to 0.3:
  neither run waves, both return the same gesture, and the scaled hand is clear of every
  threshold.
\<close>

theorem scale_invariance_witness:
  "fst (classifyGesture (1.5 * 0.2) 1000 1000 trackers_init (scaleLandmarks 1.5 hand_ily))
     = fst (classifyGesture 0.2 1000 1000 trackers_init hand_ily)
   \<and> clearHand (1 / 10 ^ 10) (scaleLandmarks 1.5 hand_ily) (1.5 * 0.2)"
proof -
  have sr: "scaleRef hand_ily 0.2 = 0.2" by (simp add: scaleRef_def hand_ily_size)
  have sr': "scaleRef (scaleLandmarks 1.5 hand_ily) (1.5 * 0.2) = 1.5 * 0.2"
    by (simp add: scaleRef_def getHandSize_scale hand_ily_size)
  have h1: "(0.5::real) \<le> 1.5" and h2: "(1.5::real) \<le> 2" by simp_all
  have h3: "scaleRef hand_ily 0.2 \<le> 2" unfolding sr by simp
  have h4: "clearHand (1 / 10 ^ 9) hand_ily (scaleRef hand_ily 0.2)"
    unfolding sr by (rule hand_ily_clear)
  have h5: "lm_at (scaleLandmarks 1.5 hand_ily) 0 = lm_at hand_ily 0"
    by (rule scaled_wrist)
  have h6: "near (1 / 10 ^ 12) (scaleLandmarks 1.5 hand_ily) (scaleLandmarks 1.5 hand_ily)"
    by (rule near_refl) simp
  have h7: "\<bar>scaleRef (scaleLandmarks 1.5 hand_ily) (1.5 * 0.2) - 1.5 * scaleRef hand_ily 0.2\<bar>
      \<le> 1 / 10 ^ 12"
    unfolding sr sr' by simp
  note inst = scale_invariance [OF h1 h2 hand_ily_inFrame h3 h4 h5 h6 h7, of 1000 1000 trackers_init]
  have np: "\<not> palmFour hand_ily 0.2"
    using hand_ily_shape by (rule assistance_not_palmFour)
  have h: "(0::real) < 1.5" "(0.0001::real) \<le> 0.2" "(0.0001::real) \<le> 1.5 * 0.2" by simp_all
  have np': "\<not> palmFour (scaleLandmarks 1.5 hand_ily) (1.5 * 0.2)"
    unfolding shapes_scale(6) [OF h] by (rule np)
  have "\<not> palmFour hand_ily (scaleRef hand_ily 0.2)"
    unfolding sr by (rule np)
  then have g: "fst (classifyGesture 0.2 1000 1000 trackers_init hand_ily) \<noteq> Some Goodbye"
    by (rule not_palmFour_not_goodbye)
  have "\<not> palmFour (scaleLandmarks 1.5 hand_ily) (scaleRef (scaleLandmarks 1.5 hand_ily) (1.5 * 0.2))"
    unfolding sr' by (rule np')
  then have g': "fst (classifyGesture (1.5 * 0.2) 1000 1000 trackers_init (scaleLandmarks 1.5 hand_ily))
      \<noteq> Some Goodbye"
    by (rule not_palmFour_not_goodbye)
  have one: "fst (classifyGesture (1.5 * 0.2) 1000 1000 trackers_init (scaleLandmarks 1.5 hand_ily))
     = fst (classifyGesture 0.2 1000 1000 trackers_init hand_ily)"
    using inst g g' by blast
  have two: "clearHand (1 / 10 ^ 10) (scaleLandmarks 1.5 hand_ily) (1.5 * 0.2)"
    using inst unfolding sr' by (rule conjunct2)
  from one two show ?thesis by (rule conjI)
qed

subsection \<open>The two-hand override\<close>

text \<open>
  Claim C6: when both hands are present with their wrists, both single-hand results are
  \<open>Yes\<close>, the wrists are closer than 0.55 times the scale reference (the maximum of both
  hand sizes, the calibration baseline and 0.0001) and both wrists lie below \<open>y = 0.55\<close>
  in the image (\<open>y > 0.55\<close>), the combiner returns \<open>Restroom\<close>, and \<open>Restroom\<close>, not
  \<open>Yes\<close>, is the frame's candidate.
\<close>

theorem two_hand_override:
  assumes "lm_at l0 0 = Some w0" and "lm_at l1 0 = Some w1"
    and "dist_lm w0 w1 < 0.55 * max (max (max (getHandSize l0) (getHandSize l1)) b) 0.0001"
    and "lm_y w0 > 0.55" and "lm_y w1 > 0.55"
  shows "combine b (Some l0) (Some l1) (Some Yes) (Some Yes) = Some Restroom
         \<and> frameCandidate (combine b (Some l0) (Some l1) (Some Yes) (Some Yes))
              (Some Yes) (Some Yes) = Some Restroom"
  using assms by (simp add: combine_def frameCandidate_def Let_def)

text \<open>
  Claim C6 at two fists held low, 0.08 apart, each of size 0.2 and each a \<open>Yes\<close> for the
  classifier.
\<close>

theorem two_hand_override_witness:
  "fst (classifyGesture 0 1000 1000 trackers_init (fistAt 0.46 0.8)) = Some Yes
   \<and> fst (classifyGesture 0 1000 1000 trackers_init (fistAt 0.54 0.8)) = Some Yes
   \<and> combine 0 (Some (fistAt 0.46 0.8)) (Some (fistAt 0.54 0.8)) (Some Yes) (Some Yes)
       = Some Restroom
   \<and> frameCandidate
         (combine 0 (Some (fistAt 0.46 0.8)) (Some (fistAt 0.54 0.8)) (Some Yes) (Some Yes))
         (Some Yes) (Some Yes) = Some Restroom"
proof -
  let ?w0 = "\<lparr>lm_x = 0.46, lm_y = 0.8, lm_z = None\<rparr>"
  let ?w1 = "\<lparr>lm_x = 0.54, lm_y = 0.8, lm_z = None\<rparr>"
  have h0: "lm_at (fistAt 0.46 0.8) 0 = Some ?w0" by (simp add: fistAt_wrist pt_def)
  have h1: "lm_at (fistAt 0.54 0.8) 0 = Some ?w1" by (simp add: fistAt_wrist pt_def)
  have h2: "dist_lm ?w0 ?w1
      < 0.55 * max (max (max (getHandSize (fistAt 0.46 0.8)) (getHandSize (fistAt 0.54 0.8))) 0) 0.0001"
    by (simp add: fistAt_size dist_lm_horizontal)
  have h3: "lm_y ?w0 > 0.55" "lm_y ?w1 > 0.55" by simp_all
  have y0: "fst (classifyGesture 0 1000 1000 trackers_init (fistAt 0.46 0.8)) = Some Yes"
    and y1: "fst (classifyGesture 0 1000 1000 trackers_init (fistAt 0.54 0.8)) = Some Yes"
    by (rule fistAt_Yes)+
  from y0 y1 two_hand_override [OF h0 h1 h2 h3] show ?thesis
    by blast
qed

subsection \<open>The calibration baseline\<close>

text \<open>
  Claim C7 says that the baseline is the mean of the per-frame maximum hand size over
  exactly the frames in which a hand was detected. The code leaves a frame without a hand
  out of the sum (\<^verbatim>\<open>if (hs > 0)\<close>) but still counts it in \<^verbatim>\<open>samples\<close>, the divisor.
  For the window \<open>calibration_run\<close>, one frame without a hand and one frame with a hand
  of size 0.2, the code's baseline is 0.1, where the mean over the frames with a hand
  is 0.2.
\<close>

theorem calibration_baseline_diluted:
  "baselineHandSize (calibrate (calibration_start 0) calibration_run) = 0.1
   \<and> isReady (calibrate (calibration_start 0) calibration_run)
   \<and> getHandSize (fistAt 0.5 0.8) = 0.2"
  by (simp add: calibration_run_def calibration_start_def calibrationStep_def fistAt_size Let_def)

subsection \<open>Assistance before thank you\<close>

text \<open>
  Claim C8: whenever the condition of the \<open>Assistance\<close> rule holds for a hand and its
  scale reference, the classifier returns \<open>Assistance\<close>, whatever the trackers hold; so it
  does for a hand that meets the condition of the \<open>Thank_you\<close> rule (\<open>fourFingers\<close>) at
  the same time. No hand does: the condition of the \<open>Assistance\<close> rule excludes that of
  the \<open>Thank_you\<close> rule.
\<close>

theorem assistance_priority:
  assumes "assistanceShape lms (scaleRef lms b)"
  shows "fst (classifyGesture b nowW nowS tr lms) = Some Assistance
         \<and> \<not> fourFingers lms (scaleRef lms b)"
proof -
  let ?hs = "scaleRef lms b"
  have np: "\<not> palmFour lms ?hs" using assms by (rule assistance_not_palmFour)
  have th: "thumb lms ?hs" using assms by (simp add: assistanceShape_def)
  then obtain w t m where cp: "classifyPoints lms = Some (w, t, m)"
    using thumb_classifyPoints by blast
  have nw: "\<not> waterShape lms ?hs" using th by (simp add: waterShape_def)
  have nf: "\<not> fourFingers lms ?hs" "\<not> openHand lms ?hs t"
    using np by (simp_all add: fourFingers_def openHand_def)
  have "shapeRules lms ?hs w t m = Some Assistance"
    using nw assms by (simp add: shapeRules_def)
  then have "fst (classifyGesture b nowW nowS tr lms) = Some Assistance"
    using cp np nf by (simp add: classifyGesture_def Let_def)
  then show ?thesis using nf(1) by simp
qed

text \<open>
  Claim C8 at \<open>hand_ily\<close>.
\<close>

theorem assistance_priority_witness:
  "assistanceShape hand_ily (scaleRef hand_ily 0)
   \<and> fst (classifyGesture 0 1000 1000 trackers_init hand_ily) = Some Assistance
   \<and> \<not> fourFingers hand_ily (scaleRef hand_ily 0)"
proof -
  have h: "assistanceShape hand_ily (scaleRef hand_ily 0)"
    using hand_ily_shape by (simp add: hand_ily_scale)
  show ?thesis
    using h assistance_priority [OF h, of 1000 1000 trackers_init] by simp
qed

subsection \<open>Missing landmarks\<close>

text \<open>
  Claim C9, as stated, says that a hand with missing entries is classified as no gesture.
  The classifier returns null itself only when the wrist, the thumb tip or the thumb MCP is
  missing; a finger whose points are missing counts as not extended. The hand
  \<open>thumb_only_hand\<close>, which has the wrist and an extended thumb and no finger at all, is
  a thumb alone for the rules: \<open>Good_okay\<close>.
\<close>

theorem missing_landmarks_counterexample:
  "lm_at thumb_only_hand 8 = None
   \<and> fst (classifyGesture 0.2 1000 1000 trackers_init thumb_only_hand) = Some Good_okay"
  by (simp add: classifyGesture_def classifyPoints_def scaleRef_def getHandSize_def
      palmFour_def openHand_def fourFingers_def shapeRules_def waterShape_def
      assistanceShape_def fist_def shape_defs thumb_only_hand_def)

text \<open>
  Claim C9, amended: for every hand, a finger predicate (extended, curled) is false when
  the wrist or one of the three points of the finger is missing, and the thumb predicate
  is false when the wrist or one of the thumb's MCP, IP and tip is missing; the classifier
  returns null, and leaves the trackers as they are, when the wrist, the thumb tip or the
  thumb MCP is missing. Nothing fails: the functions are total.
\<close>

theorem missing_landmarks:
  "(lm_at lms 0 = None \<or> lm_at lms m = None \<or> lm_at lms p = None \<or> lm_at lms t = None
      \<longrightarrow> \<not> isFingerExtended lms m p t hs \<and> \<not> isFingerCurled lms m p t hs)
   \<and> (lm_at lms 0 = None \<or> lm_at lms 4 = None \<or> lm_at lms 3 = None \<or> lm_at lms 2 = None
      \<longrightarrow> \<not> isThumbExtended lms hs)
   \<and> (lm_at lms 0 = None \<or> lm_at lms 4 = None \<or> lm_at lms 2 = None
      \<longrightarrow> classifyGesture b nowW nowS tr lms = (None, tr))"
proof -
  have "\<not> isFingerExtended lms m p t hs \<and> \<not> isFingerCurled lms m p t hs"
    if "lm_at lms 0 = None \<or> lm_at lms m = None \<or> lm_at lms p = None \<or> lm_at lms t = None"
  proof -
    have "fingerPoints lms m p t = None" using that by (simp add: fingerPoints_None_iff)
    then show ?thesis by (simp add: isFingerExtended_def isFingerCurled_def)
  qed
  moreover have "\<not> isThumbExtended lms hs"
    if "lm_at lms 0 = None \<or> lm_at lms 4 = None \<or> lm_at lms 3 = None \<or> lm_at lms 2 = None"
  proof -
    have "fingerPoints lms 2 3 4 = None" using that by (auto simp: fingerPoints_None_iff)
    then show ?thesis by (simp add: isThumbExtended_def)
  qed
  moreover have "classifyGesture b nowW nowS tr lms = (None, tr)"
    if "lm_at lms 0 = None \<or> lm_at lms 4 = None \<or> lm_at lms 2 = None"
  proof -
    have "classifyPoints lms = None" using that by (simp add: classifyPoints_None_iff)
    then show ?thesis by (simp add: classifyGesture_def)
  qed
  ultimately show ?thesis by blast
qed

text \<open>
  The amended claim at \<open>partial_hand\<close>, which has neither a thumb tip nor fingers.
\<close>

theorem missing_landmarks_witness:
  "\<not> isFingerExtended partial_hand 5 6 8 0.2 \<and> \<not> isFingerCurled partial_hand 5 6 8 0.2
   \<and> \<not> isThumbExtended partial_hand 0.2
   \<and> classifyGesture 0.2 1000 1000 trackers_init partial_hand = (None, trackers_init)"
proof -
  have h: "lm_at partial_hand 5 = None" "lm_at partial_hand 4 = None"
    by (simp_all add: lm_at_def partial_hand_def)
  show ?thesis
    using h missing_landmarks [where lms = partial_hand and m = 5 and p = 6 and t = 8
        and hs = "0.2" and b = "0.2" and nowW = 1000 and nowS = 1000 and tr = trackers_init]
    by simp
qed

subsection \<open>Extended and curled exclude each other\<close>

text \<open>
  Claim C10: for every hand, finger and scale reference, \<open>isFingerExtended\<close> and
  \<open>isFingerCurled\<close> are never both true (the one needs the tip farther from the wrist
  than the PIP by a margin, the other nearer by a margin, and the margins are not
  negative); so the shapes \<open>fist\<close> and \<open>palmFour\<close> exclude each other.
\<close>

theorem extended_curled_exclusive:
  "\<not> (isFingerExtended lms m p t hs \<and> isFingerCurled lms m p t hs)
   \<and> \<not> (fist lms hs \<and> palmFour lms hs)"
  using extended_not_curled [of lms m p t hs]
  by (auto simp: fist_def palmFour_def)

text \<open>
  Claim C10 at the index finger of \<open>hand_ily\<close>, which is extended.
\<close>

theorem extended_curled_exclusive_witness:
  "isFingerExtended hand_ily 5 6 8 0.2 \<and> \<not> isFingerCurled hand_ily 5 6 8 0.2
   \<and> \<not> (fist hand_ily 0.2 \<and> palmFour hand_ily 0.2)"
proof -
  have h: "isFingerExtended hand_ily 5 6 8 0.2"
    by (simp add: shape_defs hand_ily_def)
  show ?thesis
    using h extended_curled_exclusive [of hand_ily 5 6 8 "0.2"] by simp
qed


end
